theory Spec2Isabelle
  imports Complex_Main "HOL-Library.AList"
begin

section \<open>Python values and exceptions\<close>

text \<open>
  The notebook is Python.  Byte strings are \<^typ>\<open>string\<close> (a list of 8-bit characters), a
  \<open>dict\<close> is an association list in insertion order (\<^const>\<open>AList.update\<close> overwrites
  a key in place and appends a new one, as \<open>d[k] = v\<close> does), and a finite \<open>float\<close> is
  the rational number it denotes exactly.  An exception is a value of \<open>pyerror\<close>: the
  class of the exception with its message.
\<close>

datatype pyval = PFloat rat | PStr string | PInt int

datatype pyerror =
    FileNotFoundError string
  | ValueError string
  | IndexError string
  | KeyError pyval
  | NameError string
  | UnboundLocalError string

type_synonym 'v dict = "(string \<times> 'v) list"

definition getitem :: "'v dict \<Rightarrow> string \<Rightarrow> pyerror + 'v" where
  "getitem d k = (case map_of d k of None \<Rightarrow> Inl (KeyError (PStr k)) | Some v \<Rightarrow> Inr v)"

definition getitem_float :: "(rat \<times> 'v) list \<Rightarrow> rat \<Rightarrow> pyerror + 'v" where
  "getitem_float d k = (case map_of d k of None \<Rightarrow> Inl (KeyError (PFloat k)) | Some v \<Rightarrow> Inr v)"

definition bind_err :: "pyerror + 'a \<Rightarrow> ('a \<Rightarrow> pyerror + 'b) \<Rightarrow> pyerror + 'b" where
  "bind_err r f = (case r of Inl e \<Rightarrow> Inl e | Inr a \<Rightarrow> f a)"

section \<open>Byte-string operations used by \<open>read_hkl\<close>\<close>

text \<open>\<open>bytes.strip()\<close> and \<open>bytes.split()\<close> treat exactly these six bytes as whitespace.\<close>

definition is_space :: "char \<Rightarrow> bool" where
  "is_space c = (c = CHR 0x20 \<or> c = CHR 0x09 \<or> c = CHR 0x0A \<or> c = CHR 0x0D
                 \<or> c = CHR 0x0B \<or> c = CHR 0x0C)"

definition bytes_strip :: "string \<Rightarrow> string" where
  "bytes_strip s = rev (dropWhile is_space (rev (dropWhile is_space s)))"

fun split_acc :: "string \<Rightarrow> string \<Rightarrow> string list" where
  "split_acc cur [] = (if cur = [] then [] else [cur])"
| "split_acc cur (c # cs) =
     (if is_space c then (if cur = [] then split_acc [] cs else cur # split_acc [] cs)
      else split_acc (cur @ [c]) cs)"

definition bytes_split :: "string \<Rightarrow> string list" where
  "bytes_split s = split_acc [] s"

text \<open>\<open>xs[1]\<close>: the second element, or \<open>IndexError\<close>.\<close>

fun item1 :: "'a list \<Rightarrow> pyerror + 'a" where
  "item1 (x # y # ys) = Inr y"
| "item1 xs = Inl (IndexError ''list index out of range'')"

section \<open>The memory-mapped file\<close>

text \<open>
  A \<open>mmap.mmap\<close> object: the mapped bytes and the current position.  \<open>find\<close> searches
  from the current position (CPython starts the search at \<open>self->pos\<close> when no start is
  given) and returns \<open>-1\<close> when the bytes do not occur; \<open>seek\<close> raises
  \<open>ValueError\<close> for a position below 0 or beyond the size; \<open>readline\<close> returns the bytes
  from the position up to and including the next newline (or to the end) and advances.
  Every operation returns the object it leaves behind.
\<close>

record mmap =
  mm_data :: string
  mm_pos :: nat

fun find_at :: "string \<Rightarrow> string \<Rightarrow> nat \<Rightarrow> nat option" where
  "find_at sub [] i = (if sub = [] then Some i else None)"
| "find_at sub (c # cs) i = (if take (length sub) (c # cs) = sub then Some i else find_at sub cs (Suc i))"

definition mm_find :: "string \<Rightarrow> mmap \<Rightarrow> int" where
  "mm_find sub mm =
     (case find_at sub (drop (mm_pos mm) (mm_data mm)) (mm_pos mm) of
        None \<Rightarrow> - 1
      | Some i \<Rightarrow> int i)"

definition mm_seek :: "int \<Rightarrow> mmap \<Rightarrow> (pyerror + unit) \<times> mmap" where
  "mm_seek p mm =
     (if p < 0 \<or> int (length (mm_data mm)) < p then (Inl (ValueError ''seek out of range''), mm)
      else (Inr (), mm\<lparr>mm_pos := nat p\<rparr>))"

fun line_of :: "string \<Rightarrow> string" where
  "line_of [] = []"
| "line_of (c # cs) = (if c = CHR 0x0A then [c] else c # line_of cs)"

definition mm_readline :: "mmap \<Rightarrow> string \<times> mmap" where
  "mm_readline mm =
     (let line = line_of (drop (mm_pos mm) (mm_data mm))
      in (line, mm\<lparr>mm_pos := mm_pos mm + length line\<rparr>))"

section \<open>The world\<close>

text \<open>
  The world outside the notebook's variables: regular files with their bytes, the
  directories that exist, the data sets that simulation runs have written into
  directories, the parameters of the instrument's \<open>Sample\<close> component, and the requests
  the external simulator has received so far (oldest first).
\<close>

record sim_request =
  rq_foldername :: string
  rq_increment_folder_name :: bool
  rq_ncount :: rat
  rq_mpi :: int
  rq_parameters :: "pyval dict"
  rq_sample :: "pyval dict"

record 'd world =
  files :: "string \<rightharpoonup> string"
  folders :: "string list"
  datasets :: "string \<rightharpoonup> 'd"
  sample_pms :: "pyval dict"
  sim_calls :: "sim_request list"

section \<open>The HKL metadata reader\<close>

text \<open>
  The source:
  \<^verbatim>\<open>
  def read_hkl(hkl_file):
      params = ["sigma_coh", "sigma_inc", "sigma_abs", "density", "weight", "Vc",
                "lattice_a", "lattice_b", "lattice_c", "lattice_aa", "lattice_bb",
                "lattice_cc"]
      vals = {}
      with open(hkl_file, "r+b") as f:
          with mmap.mmap(f.fileno(), 0) as mm:
              for pm in params:
                  mm.seek(mm.find(pm.encode("UTF-8")))
                  vals[pm] = float(mm.readline().strip().split()[1])
      return vals
  \<close>
\<close>

definition params :: "string list" where
  "params = [''sigma_coh'', ''sigma_inc'', ''sigma_abs'', ''density'', ''weight'', ''Vc'',
             ''lattice_a'', ''lattice_b'', ''lattice_c'', ''lattice_aa'', ''lattice_bb'',
             ''lattice_cc'']"

text \<open>
  The body of the loop.  The names are ASCII, so \<open>pm.encode("UTF-8")\<close> is the name
  itself.  Python's \<open>float\<close> is the parameter \<open>pyfloat\<close> (\<open>None\<close> when it raises
  \<open>ValueError\<close>); the message of that error is kept without the token.
\<close>

definition read_param ::
  "(string \<Rightarrow> rat option) \<Rightarrow> string \<Rightarrow> rat dict \<Rightarrow> mmap \<Rightarrow> (pyerror + rat dict) \<times> mmap" where
  "read_param pyfloat pm vals mm =
     (case mm_seek (mm_find pm mm) mm of
        (Inl e, mm1) \<Rightarrow> (Inl e, mm1)
      | (Inr _, mm1) \<Rightarrow>
          (case mm_readline mm1 of
             (line, mm2) \<Rightarrow>
               (case item1 (bytes_split (bytes_strip line)) of
                  Inl e \<Rightarrow> (Inl e, mm2)
                | Inr tok \<Rightarrow>
                    (case pyfloat tok of
                       None \<Rightarrow> (Inl (ValueError ''could not convert string to float''), mm2)
                     | Some v \<Rightarrow> (Inr (AList.update pm v vals), mm2)))))"

fun read_params ::
  "(string \<Rightarrow> rat option) \<Rightarrow> string list \<Rightarrow> rat dict \<Rightarrow> mmap \<Rightarrow> (pyerror + rat dict) \<times> mmap" where
  "read_params pyfloat [] vals mm = (Inr vals, mm)"
| "read_params pyfloat (pm # pms) vals mm =
     (case read_param pyfloat pm vals mm of
        (Inl e, mm') \<Rightarrow> (Inl e, mm')
      | (Inr vals', mm') \<Rightarrow> read_params pyfloat pms vals' mm')"

text \<open>
  \<open>open(hkl_file, "r+b")\<close> raises \<open>FileNotFoundError\<close> for a missing file and
  \<open>mmap.mmap(f.fileno(), 0)\<close> raises \<open>ValueError\<close> for an empty one.  The mapping is
  writable and shared: leaving the \<open>with\<close> block stores the mapped bytes back as the
  file's content, also when the block is left by an exception.
\<close>

definition read_hkl ::
  "(string \<Rightarrow> rat option) \<Rightarrow> string \<Rightarrow> 'd world \<Rightarrow> (pyerror + rat dict) \<times> 'd world" where
  "read_hkl pyfloat hkl_file w =
     (case files w hkl_file of
        None \<Rightarrow> (Inl (FileNotFoundError hkl_file), w)
      | Some content \<Rightarrow>
          if content = [] then (Inl (ValueError ''cannot mmap an empty file''), w)
          else (case read_params pyfloat params [] \<lparr>mm_data = content, mm_pos = 0\<rparr> of
                  (r, mm) \<Rightarrow> (r, w\<lparr>files := (files w)(hkl_file \<mapsto> mm_data mm)\<rparr>)))"

text \<open>
  The Parameter Mapper:
  \<^verbatim>\<open>
  def hkl_to_powdern_pms(hkl_file):
      hkl_data = read_hkl(hkl_file)
      pms = {
          "Vc": hkl_data["Vc"],
          "density": hkl_data["density"],
          "weight": hkl_data["weight"],
          "sigma_abs": hkl_data["sigma_abs"],
          "sigma_inc": hkl_data["sigma_inc"],
          "reflections": '"' + hkl_file + '"',
          "barns": 1,
      }
      return pms
  \<close>
  The dictionary display evaluates its entries in order, so a missing key of \<open>hkl_data\<close>
  raises \<open>KeyError\<close> for the first one that is looked up.  \<^term>\<open>CHR 0x22\<close> is the
  double quote.
\<close>

definition hkl_to_powdern_pms ::
  "(string \<Rightarrow> rat option) \<Rightarrow> string \<Rightarrow> 'd world \<Rightarrow> (pyerror + pyval dict) \<times> 'd world" where
  "hkl_to_powdern_pms pyfloat hkl_file w =
     (case read_hkl pyfloat hkl_file w of
        (Inl e, w') \<Rightarrow> (Inl e, w')
      | (Inr hkl_data, w') \<Rightarrow>
          (bind_err (getitem hkl_data ''Vc'') (\<lambda>vc.
           bind_err (getitem hkl_data ''density'') (\<lambda>density.
           bind_err (getitem hkl_data ''weight'') (\<lambda>weight.
           bind_err (getitem hkl_data ''sigma_abs'') (\<lambda>sigma_abs.
           bind_err (getitem hkl_data ''sigma_inc'') (\<lambda>sigma_inc.
             Inr [(''Vc'', PFloat vc),
                  (''density'', PFloat density),
                  (''weight'', PFloat weight),
                  (''sigma_abs'', PFloat sigma_abs),
                  (''sigma_inc'', PFloat sigma_inc),
                  (''reflections'', PStr ([CHR 0x22] @ hkl_file @ [CHR 0x22])),
                  (''barns'', PInt 1)]))))),
           w'))"

section \<open>Formatting a wavelength with \<open>:.1f\<close>\<close>

text \<open>
  Python rounds the exact value of the float to one decimal, ties to even, and prints the
  sign, the integer part, a point and one digit; a negative value that rounds to zero
  prints as \<open>-0.0\<close>.
\<close>

definition digit_char :: "nat \<Rightarrow> char" where
  "digit_char d = char_of (48 + d)"

function string_of_nat :: "nat \<Rightarrow> string" where
  "string_of_nat n =
     (if n < 10 then [digit_char n] else string_of_nat (n div 10) @ [digit_char (n mod 10)])"
  by pat_completeness auto
termination
  by (relation "measure id") auto

declare string_of_nat.simps [simp del]

definition round_half_even :: "rat \<Rightarrow> int" where
  "round_half_even x =
     (let f = \<lfloor>x\<rfloor>; r = x - of_int f
      in if r < 1 / 2 then f else if 1 / 2 < r then f + 1 else if even f then f else f + 1)"

definition fmt1 :: "rat \<Rightarrow> string" where
  "fmt1 x =
     (let n = nat (round_half_even (\<bar>x\<bar> * 10))
      in (if x < 0 then ''-'' else []) @ string_of_nat (n div 10) @ ''.'' @ [digit_char (n mod 10)])"

section \<open>The notebook's variables\<close>

text \<open>
  The module-level variables of the notebook: the configuration cell's, the table
  \<open>crystal_hkls\<close> built by the conversion cell, and \<open>results\<close>, which the sweep cells
  assign.
\<close>

record 'd globals =
  output_folder :: string
  prefix :: string
  postfix :: string
  run_simulation :: bool
  instrument_name :: string
  mpi :: int
  ncount :: rat
  lambda0s :: "rat list"
  colors :: "string list"
  crystal_hkls :: "string dict"
  results :: "(rat \<times> 'd dict) list"

text \<open>
  The output folder of a Sweep Point,
  \<^verbatim>\<open>f"{output_folder}/{prefix}_{lambda0:.1f}_{sample_name}"\<close>; the replay cell
  writes the same expression and appends \<open>postfix\<close>.
\<close>

definition folder_path :: "string \<Rightarrow> string \<Rightarrow> rat \<Rightarrow> string \<Rightarrow> string" where
  "folder_path out pre lambda0 sample_name = out @ ''/'' @ pre @ ''_'' @ fmt1 lambda0 @ ''_'' @ sample_name"

section \<open>The external collaborators\<close>

text \<open>
  \<open>os.path.exists\<close> and \<open>os.makedirs\<close> on the world (the hierarchy of directories is not
  modelled: a path is a name).
\<close>

definition path_exists :: "'d world \<Rightarrow> string \<Rightarrow> bool" where
  "path_exists w p = (p \<in> set (folders w) \<or> files w p \<noteq> None)"

definition makedirs :: "string \<Rightarrow> 'd world \<Rightarrow> 'd world" where
  "makedirs p w = w\<lparr>folders := folders w @ [p]\<rparr>"

text \<open>
  \<open>set_parameters\<close> of the \<open>Sample\<close> component stores every entry of the dictionary.
\<close>

definition set_parameters :: "pyval dict \<Rightarrow> 'd world \<Rightarrow> 'd world" where
  "set_parameters pms w = w\<lparr>sample_pms := foldl (\<lambda>d (k, v). AList.update k v d) (sample_pms w) pms\<rparr>"

text \<open>
  \<open>run_full_instrument\<close> of the simulator.  With \<open>increment_folder_name\<close> it writes to
  the requested folder when no directory of that name exists, and otherwise to the first
  of \<open>foldername_0\<close>, \<open>foldername_1\<close>, ... that does not exist; without it an existing
  directory is an error.  Among \<open>length folders + 1\<close> candidates one is free.  The
  ray tracing itself is the parameter \<open>mcrun\<close>: from the request (with the folder
  it writes to) and the \<open>Sample\<close> parameters to a data set or an exception.  A run that
  succeeds leaves its data set in the folder; every request is logged.
\<close>

definition data_folder_name :: "string \<Rightarrow> bool \<Rightarrow> string list \<Rightarrow> string option" where
  "data_folder_name foldername increment fs =
     (if foldername \<notin> set fs then Some foldername
      else if increment then
        map_option (\<lambda>k. foldername @ ''_'' @ string_of_nat k)
          (find (\<lambda>k. foldername @ ''_'' @ string_of_nat k \<notin> set fs) [0..<Suc (length fs)])
      else None)"

definition run_full_instrument ::
  "(sim_request \<Rightarrow> pyval dict \<Rightarrow> pyerror + 'd) \<Rightarrow> sim_request \<Rightarrow> 'd world \<Rightarrow> (pyerror + 'd) \<times> 'd world" where
  "run_full_instrument mcrun rq w =
     (let w1 = w\<lparr>sim_calls := sim_calls w @ [rq]\<rparr>
      in case data_folder_name (rq_foldername rq) (rq_increment_folder_name rq) (folders w) of
           None \<Rightarrow> (Inl (NameError ''Folder name already exists''), w1)
         | Some folder \<Rightarrow>
             (case mcrun (rq\<lparr>rq_foldername := folder\<rparr>) (sample_pms w) of
                Inl e \<Rightarrow> (Inl e, w1)
              | Inr d \<Rightarrow>
                  (Inr d, w1\<lparr>folders := folders w @ [folder],
                             datasets := (datasets w)(folder \<mapsto> d)\<rparr>)))"

text \<open>
  \<open>load_data\<close> of the simulator's interface: a folder that is no directory, or a directory
  that holds no data set, raises \<open>NameError\<close>; loading changes nothing.
\<close>

definition load_data :: "string \<Rightarrow> 'd world \<Rightarrow> (pyerror + 'd) \<times> 'd world" where
  "load_data folder w =
     (if folder \<notin> set (folders w) then (Inl (NameError ''Given data directory does not exist.''), w)
      else case datasets w folder of
             None \<Rightarrow> (Inl (NameError ''No mccode.sim in data folder.''), w)
           | Some d \<Rightarrow> (Inr d, w))"

section \<open>The Sample Runner\<close>

text \<open>
  \<^verbatim>\<open>
  def run_on_sample(sample_name, hkl_file, lambda0, ncount, mpi):
      if not os.path.exists(output_folder):
          os.makedirs(output_folder)
      pms = hkl_to_powdern_pms(hkl_file)
      sample_comp = instrument.get_component("Sample")
      sample_comp.set_parameters(pms)
      foldername = f"{output_folder}/{prefix}_{lambda0:.1f}_{sample_name}"
      data = instrument.run_full_instrument(
          foldername=foldername, increment_folder_name=True, ncount=ncount, mpi=mpi,
          parameters={"lambda": lambda0, "RV": -1, "verbose": 1})
      return data
  \<close>
  \<open>output_folder\<close>, \<open>prefix\<close> and \<open>instrument\<close> are read from the notebook's variables.
  The request records the \<open>Sample\<close> parameters at the time of the run.
\<close>

definition run_on_sample ::
  "(string \<Rightarrow> rat option) \<Rightarrow> (sim_request \<Rightarrow> pyval dict \<Rightarrow> pyerror + 'd) \<Rightarrow> 'd globals \<Rightarrow>
   string \<Rightarrow> string \<Rightarrow> rat \<Rightarrow> rat \<Rightarrow> int \<Rightarrow> 'd world \<Rightarrow> (pyerror + 'd) \<times> 'd world" where
  "run_on_sample pyfloat mcrun g sample_name hkl_file lambda0 ncount' mpi' w =
     (let w1 = (if \<not> path_exists w (output_folder g) then makedirs (output_folder g) w else w)
      in case hkl_to_powdern_pms pyfloat hkl_file w1 of
           (Inl e, w2) \<Rightarrow> (Inl e, w2)
         | (Inr pms, w2) \<Rightarrow>
             (let w3 = set_parameters pms w2;
                  foldername = folder_path (output_folder g) (prefix g) lambda0 sample_name
              in run_full_instrument mcrun
                   \<lparr>rq_foldername = foldername,
                    rq_increment_folder_name = True,
                    rq_ncount = ncount',
                    rq_mpi = mpi',
                    rq_parameters = [(''lambda'', PFloat lambda0), (''RV'', PInt (- 1)), (''verbose'', PInt 1)],
                    rq_sample = sample_pms w3\<rparr> w3))"

section \<open>The Sweep Orchestrator\<close>

text \<open>
  \<open>results[lambda0][crys] = data\<close>: look the inner dictionary up, store into it.
\<close>

definition setitem2 :: "rat \<Rightarrow> string \<Rightarrow> 'd \<Rightarrow> (rat \<times> 'd dict) list \<Rightarrow> pyerror + (rat \<times> 'd dict) list" where
  "setitem2 lambda0 crys data res =
     bind_err (getitem_float res lambda0)
       (\<lambda>inner. Inr (AList.update lambda0 (AList.update crys data inner) res))"

text \<open>
  The execute cell:
  \<^verbatim>\<open>
  if run_simulation:
      results = {}
      for i, lambda0 in enumerate(lambda0s):
          results[lambda0] = {}
          for j, (crys, hkl) in enumerate(crystal_hkls.items()):
              data = run_on_sample(crys, hkl, lambda0, ncount, mpi)
              results[lambda0][crys] = data
  \<close>
  The progress lines it prints and the timer are not modelled.  An exception leaves the
  loops at once; \<open>results\<close> keeps what was stored before.
\<close>

fun execute_crystals ::
  "(string \<Rightarrow> rat option) \<Rightarrow> (sim_request \<Rightarrow> pyval dict \<Rightarrow> pyerror + 'd) \<Rightarrow> rat \<Rightarrow>
   (string \<times> string) list \<Rightarrow> 'd globals \<Rightarrow> 'd world \<Rightarrow> (pyerror + unit) \<times> 'd globals \<times> 'd world" where
  "execute_crystals pyfloat mcrun lambda0 [] g w = (Inr (), g, w)"
| "execute_crystals pyfloat mcrun lambda0 ((crys, hkl) # rest) g w =
     (case run_on_sample pyfloat mcrun g crys hkl lambda0 (ncount g) (mpi g) w of
        (Inl e, w') \<Rightarrow> (Inl e, g, w')
      | (Inr data, w') \<Rightarrow>
          (case setitem2 lambda0 crys data (results g) of
             Inl e \<Rightarrow> (Inl e, g, w')
           | Inr res \<Rightarrow> execute_crystals pyfloat mcrun lambda0 rest (g\<lparr>results := res\<rparr>) w'))"

fun execute_lambdas ::
  "(string \<Rightarrow> rat option) \<Rightarrow> (sim_request \<Rightarrow> pyval dict \<Rightarrow> pyerror + 'd) \<Rightarrow> rat list \<Rightarrow>
   'd globals \<Rightarrow> 'd world \<Rightarrow> (pyerror + unit) \<times> 'd globals \<times> 'd world" where
  "execute_lambdas pyfloat mcrun [] g w = (Inr (), g, w)"
| "execute_lambdas pyfloat mcrun (lambda0 # rest) g w =
     (case execute_crystals pyfloat mcrun lambda0 (crystal_hkls g)
             (g\<lparr>results := AList.update lambda0 [] (results g)\<rparr>) w of
        (Inl e, g', w') \<Rightarrow> (Inl e, g', w')
      | (Inr _, g', w') \<Rightarrow> execute_lambdas pyfloat mcrun rest g' w')"

definition execute_cell ::
  "(string \<Rightarrow> rat option) \<Rightarrow> (sim_request \<Rightarrow> pyval dict \<Rightarrow> pyerror + 'd) \<Rightarrow>
   'd globals \<Rightarrow> 'd world \<Rightarrow> (pyerror + unit) \<times> 'd globals \<times> 'd world" where
  "execute_cell pyfloat mcrun g w =
     (if run_simulation g then execute_lambdas pyfloat mcrun (lambda0s g) (g\<lparr>results := []\<rparr>) w
      else (Inr (), g, w))"

text \<open>
  The replay cell:
  \<^verbatim>\<open>
  if not run_simulation:
      results = {}
      for lambda0 in lambda0s:
          results[lambda0] = {}
          for crys in crystal_hkls.keys():
              folder = f"{output_folder}/{prefix}_{lambda0:.1f}_{crys}{postfix}"
              data = load_data(folder)
              results[lambda0][crys] = data
  \<close>
\<close>

fun replay_crystals ::
  "rat \<Rightarrow> string list \<Rightarrow> 'd globals \<Rightarrow> 'd world \<Rightarrow> (pyerror + unit) \<times> 'd globals \<times> 'd world" where
  "replay_crystals lambda0 [] g w = (Inr (), g, w)"
| "replay_crystals lambda0 (crys # rest) g w =
     (let folder = folder_path (output_folder g) (prefix g) lambda0 crys @ postfix g
      in case load_data folder w of
           (Inl e, w') \<Rightarrow> (Inl e, g, w')
         | (Inr data, w') \<Rightarrow>
             (case setitem2 lambda0 crys data (results g) of
                Inl e \<Rightarrow> (Inl e, g, w')
              | Inr res \<Rightarrow> replay_crystals lambda0 rest (g\<lparr>results := res\<rparr>) w'))"

fun replay_lambdas ::
  "rat list \<Rightarrow> 'd globals \<Rightarrow> 'd world \<Rightarrow> (pyerror + unit) \<times> 'd globals \<times> 'd world" where
  "replay_lambdas [] g w = (Inr (), g, w)"
| "replay_lambdas (lambda0 # rest) g w =
     (case replay_crystals lambda0 (map fst (crystal_hkls g))
             (g\<lparr>results := AList.update lambda0 [] (results g)\<rparr>) w of
        (Inl e, g', w') \<Rightarrow> (Inl e, g', w')
      | (Inr _, g', w') \<Rightarrow> replay_lambdas rest g' w')"

definition replay_cell :: "'d globals \<Rightarrow> 'd world \<Rightarrow> (pyerror + unit) \<times> 'd globals \<times> 'd world" where
  "replay_cell g w =
     (if \<not> run_simulation g then replay_lambdas (lambda0s g) (g\<lparr>results := []\<rparr>) w
      else (Inr (), g, w))"

section \<open>The Comparison Plotter\<close>

text \<open>
  What the plotter reads out of a data set: the monitor that \<open>name_search\<close> finds, with
  its metadata and its arrays.  \<open>name_search\<close> itself is a parameter.
\<close>

record monitor =
  component_name :: string
  xlabel :: string
  ylabel :: string
  limits :: "rat list"
  Intensity :: "rat list"
  Ncount :: "rat list"
  Error :: "rat list"
  xaxis :: "rat list"

text \<open>
  \<^verbatim>\<open>
  def plot_diffr(crystals_to_plot):
      for lambda0 in lambda0s:
          fig, ax = plt.subplots(figsize=(11, 5.5))
          for i, crys in enumerate(crystals_to_plot):
              data = results[lambda0][crys]
              pattern = functions.name_search(instrument_name, data)
              name = pattern.metadata.component_name
              xlabel = pattern.metadata.xlabel
              ylabel = pattern.metadata.ylabel
              xlims = pattern.metadata.limits
              intensity = pattern.Intensity
              ncount = pattern.Ncount
              error = pattern.Error
              xvals = pattern.xaxis
              y = intensity
              ax.plot(xvals, y, color=colors[i], label=crys, linewidth=0.8)
              ax.fill_between(xvals, y, color=colors[i], alpha=0.1)
          ...
          ax.set_ylabel(ylabel)
          ...
          plt.show()
  \<close>
  \<open>plot_diffr\<close> has no \<open>global\<close> statement, so every name it assigns is local to the
  call: \<open>name\<close>, \<open>xlabel\<close>, \<open>ylabel\<close>, \<open>xlims\<close>, \<open>intensity\<close>, \<open>ncount\<close>,
  \<open>error\<close>, \<open>xvals\<close>.  A local is unbound (\<open>None\<close>) until its first assignment and
  keeps its value from one iteration to the next.
\<close>

record plot_locals =
  loc_name :: "string option"
  loc_xlabel :: "string option"
  loc_ylabel :: "string option"
  loc_xlims :: "rat list option"
  loc_intensity :: "rat list option"
  loc_ncount :: "rat list option"
  loc_error :: "rat list option"
  loc_xvals :: "rat list option"

definition no_locals :: plot_locals where
  "no_locals = \<lparr>loc_name = None, loc_xlabel = None, loc_ylabel = None, loc_xlims = None,
                 loc_intensity = None, loc_ncount = None, loc_error = None, loc_xvals = None\<rparr>"

text \<open>
  A chart as it is shown: one curve per plotted crystal (label, colour, x and y values),
  the label of the y axis, and the wavelength as the title prints it.  The fixed axis
  limits, scale and grid are not modelled.
\<close>

record curve =
  cv_label :: string
  cv_color :: string
  cv_x :: "rat list"
  cv_y :: "rat list"

record chart =
  ch_curves :: "curve list"
  ch_ylabel :: string
  ch_title_lambda :: string

fun plot_crystals ::
  "(string \<Rightarrow> 'd \<Rightarrow> pyerror + monitor) \<Rightarrow> rat \<Rightarrow> nat \<Rightarrow> string list \<Rightarrow> curve list \<Rightarrow>
   plot_locals \<Rightarrow> 'd globals \<Rightarrow> (pyerror + curve list \<times> plot_locals) \<times> 'd globals" where
  "plot_crystals name_search lambda0 i [] cs loc g = (Inr (cs, loc), g)"
| "plot_crystals name_search lambda0 i (crys # rest) cs loc g =
     (case bind_err (getitem_float (results g) lambda0) (\<lambda>inner. getitem inner crys) of
        Inl e \<Rightarrow> (Inl e, g)
      | Inr data \<Rightarrow>
          (case name_search (instrument_name g) data of
             Inl e \<Rightarrow> (Inl e, g)
           | Inr pattern \<Rightarrow>
               (let loc' = loc\<lparr>loc_name := Some (component_name pattern),
                               loc_xlabel := Some (xlabel pattern),
                               loc_ylabel := Some (ylabel pattern),
                               loc_xlims := Some (limits pattern),
                               loc_intensity := Some (Intensity pattern),
                               loc_ncount := Some (Ncount pattern),
                               loc_error := Some (Error pattern),
                               loc_xvals := Some (xaxis pattern)\<rparr>
                in if i < length (colors g)
                   then plot_crystals name_search lambda0 (Suc i) rest
                          (cs @ [\<lparr>cv_label = crys, cv_color = colors g ! i,
                                  cv_x = xaxis pattern, cv_y = Intensity pattern\<rparr>]) loc' g
                   else (Inl (IndexError ''list index out of range''), g))))"

fun plot_lambdas ::
  "(string \<Rightarrow> 'd \<Rightarrow> pyerror + monitor) \<Rightarrow> rat list \<Rightarrow> string list \<Rightarrow> plot_locals \<Rightarrow>
   'd globals \<Rightarrow> chart list \<Rightarrow> (pyerror + unit) \<times> 'd globals \<times> chart list" where
  "plot_lambdas name_search [] crystals_to_plot loc g shown = (Inr (), g, shown)"
| "plot_lambdas name_search (lambda0 # rest) crystals_to_plot loc g shown =
     (case plot_crystals name_search lambda0 0 crystals_to_plot [] loc g of
        (Inl e, g') \<Rightarrow> (Inl e, g', shown)
      | (Inr (cs, loc'), g') \<Rightarrow>
          (case loc_ylabel loc' of
             None \<Rightarrow>
               (Inl (UnboundLocalError ''local variable 'ylabel' referenced before assignment''),
                g', shown)
           | Some yl \<Rightarrow>
               plot_lambdas name_search rest crystals_to_plot loc' g'
                 (shown @ [\<lparr>ch_curves = cs, ch_ylabel = yl, ch_title_lambda = fmt1 lambda0\<rparr>])))"

definition plot_diffr ::
  "(string \<Rightarrow> 'd \<Rightarrow> pyerror + monitor) \<Rightarrow> string list \<Rightarrow> 'd globals \<Rightarrow>
   (pyerror + unit) \<times> 'd globals \<times> chart list" where
  "plot_diffr name_search crystals_to_plot g =
     plot_lambdas name_search (lambda0s g) crystals_to_plot no_locals g []"

section \<open>The layout that \<open>read_hkl\<close> reads\<close>

text \<open>
  A field line of a reflection-list file, cut into its parts: the text between the end of
  the previous field's line and the name (it may span lines), the name, the blanks after
  it, the value token, and what follows the token up to the end of the line.
  \<open>fl_val\<close> is the number the token denotes.
\<close>

record field_line =
  fl_pre :: string
  fl_name :: string
  fl_sep :: string
  fl_tok :: string
  fl_tail :: string
  fl_val :: rat

definition fl_text :: "field_line \<Rightarrow> string" where
  "fl_text s = fl_pre s @ fl_name s @ fl_sep s @ fl_tok s @ fl_tail s @ [CHR 0x0A]"

text \<open>
  The field line is well formed: the name does not occur in the text before it (its
  first occurrence in \<open>fl_pre @ fl_name\<close> is at the end), name and token are non-empty and
  free of whitespace, the separator is a non-empty run of whitespace other than newline,
  the rest of the line is empty or starts with whitespace, and \<open>float\<close> accepts the token.
\<close>

definition fl_ok :: "(string \<Rightarrow> rat option) \<Rightarrow> field_line \<Rightarrow> bool" where
  "fl_ok pyfloat s =
     (find_at (fl_name s) (fl_pre s @ fl_name s) 0 = Some (length (fl_pre s)) \<and>
      fl_name s \<noteq> [] \<and> list_all (\<lambda>c. \<not> is_space c) (fl_name s) \<and>
      fl_sep s \<noteq> [] \<and> list_all (\<lambda>c. is_space c \<and> c \<noteq> CHR 0x0A) (fl_sep s) \<and>
      fl_tok s \<noteq> [] \<and> list_all (\<lambda>c. \<not> is_space c) (fl_tok s) \<and>
      (case fl_tail s of [] \<Rightarrow> True | c # _ \<Rightarrow> is_space c) \<and>
      CHR 0x0A \<notin> set (fl_tail s) \<and>
      pyfloat (fl_tok s) = Some (fl_val s))"

section \<open>Concrete inputs for the examples\<close>

text \<open>
  A conversion of plain decimal numerals (\<open>[-]digits[.digits]\<close>) to the rational they
  denote.  It stands for \<open>float\<close> only where an example is evaluated; the theorems are
  stated for every conversion function.
\<close>

fun digits_val :: "string \<Rightarrow> nat \<Rightarrow> nat option" where
  "digits_val [] acc = Some acc"
| "digits_val (c # cs) acc =
     (let n = (of_char c :: nat)
      in if 48 \<le> n \<and> n \<le> 57 then digits_val cs (10 * acc + (n - 48)) else None)"

definition dec_float :: "string \<Rightarrow> rat option" where
  "dec_float s =
     (let neg = (take 1 s = ''-'');
          body = (if neg then drop 1 s else s);
          ip = takeWhile (\<lambda>c. c \<noteq> CHR ''.'') body;
          fp = drop (Suc (length ip)) body
      in if ip = [] \<and> fp = [] then None
         else case (digits_val ip 0, digits_val fp 0) of
                (Some a, Some b) \<Rightarrow>
                  Some ((if neg then - 1 else 1) * (of_nat a + of_nat b / 10 ^ length fp))
              | _ \<Rightarrow> None)"

definition file_lines :: "string list \<Rightarrow> string" where
  "file_lines ls = concat (map (\<lambda>l. l @ [CHR 0x0A]) ls)"

text \<open>A reflection-list file in the layout of the converter, and its field lines.\<close>

definition c16_hkl :: string where
  "c16_hkl = file_lines
     [''# TITLE C16'',
      ''# sigma_coh 88.816 coherent [barn]'',
      ''# sigma_inc 0.016 incoherent [barn]'',
      ''sigma_abs   0.1720   # comment'',
      ''# density 3.5 in [g/cm^3]'',
      ''# weight 192.16 in [g/mol]'',
      ''# Vc 45.3 unit cell in [A^3]'',
      ''# lattice_a 3.5'',
      ''# lattice_b 3.6'',
      ''# lattice_c 3.7'',
      ''# lattice_aa 90'',
      ''# lattice_bb 91'',
      ''# lattice_cc 92'',
      ''1 1 1 8 2.0597'']"

definition c16_fields :: "field_line list" where
  "c16_fields =
     [\<lparr>fl_pre = ''# TITLE C16'' @ [CHR 0x0A] @ ''# '', fl_name = ''sigma_coh'', fl_sep = '' '',
       fl_tok = ''88.816'', fl_tail = '' coherent [barn]'', fl_val = 88816 / 1000\<rparr>,
      \<lparr>fl_pre = ''# '', fl_name = ''sigma_inc'', fl_sep = '' '',
       fl_tok = ''0.016'', fl_tail = '' incoherent [barn]'', fl_val = 16 / 1000\<rparr>,
      \<lparr>fl_pre = [], fl_name = ''sigma_abs'', fl_sep = ''   '',
       fl_tok = ''0.1720'', fl_tail = ''   # comment'', fl_val = 172 / 1000\<rparr>,
      \<lparr>fl_pre = ''# '', fl_name = ''density'', fl_sep = '' '',
       fl_tok = ''3.5'', fl_tail = '' in [g/cm^3]'', fl_val = 35 / 10\<rparr>,
      \<lparr>fl_pre = ''# '', fl_name = ''weight'', fl_sep = '' '',
       fl_tok = ''192.16'', fl_tail = '' in [g/mol]'', fl_val = 19216 / 100\<rparr>,
      \<lparr>fl_pre = ''# '', fl_name = ''Vc'', fl_sep = '' '',
       fl_tok = ''45.3'', fl_tail = '' unit cell in [A^3]'', fl_val = 453 / 10\<rparr>,
      \<lparr>fl_pre = ''# '', fl_name = ''lattice_a'', fl_sep = '' '',
       fl_tok = ''3.5'', fl_tail = [], fl_val = 35 / 10\<rparr>,
      \<lparr>fl_pre = ''# '', fl_name = ''lattice_b'', fl_sep = '' '',
       fl_tok = ''3.6'', fl_tail = [], fl_val = 36 / 10\<rparr>,
      \<lparr>fl_pre = ''# '', fl_name = ''lattice_c'', fl_sep = '' '',
       fl_tok = ''3.7'', fl_tail = [], fl_val = 37 / 10\<rparr>,
      \<lparr>fl_pre = ''# '', fl_name = ''lattice_aa'', fl_sep = '' '',
       fl_tok = ''90'', fl_tail = [], fl_val = 90\<rparr>,
      \<lparr>fl_pre = ''# '', fl_name = ''lattice_bb'', fl_sep = '' '',
       fl_tok = ''91'', fl_tail = [], fl_val = 91\<rparr>,
      \<lparr>fl_pre = ''# '', fl_name = ''lattice_cc'', fl_sep = '' '',
       fl_tok = ''92'', fl_tail = [], fl_val = 92\<rparr>]"

text \<open>Twelve field lines with the first two exchanged, and a file without the \<open>sigma_inc\<close> line.\<close>

definition swapped_hkl :: string where
  "swapped_hkl = file_lines
     [''sigma_inc 0.016'',
      ''sigma_coh 88.816'',
      ''sigma_abs 0.1720'',
      ''density 3.5'',
      ''weight 192.16'',
      ''Vc 45.3'',
      ''lattice_a 3.5'',
      ''lattice_b 3.6'',
      ''lattice_c 3.7'',
      ''lattice_aa 90'',
      ''lattice_bb 91'',
      ''lattice_cc 92'']"

definition no_inc_hkl :: string where
  "no_inc_hkl = file_lines
     [''sigma_coh 88.816'',
      ''sigma_abs 0.1720'',
      ''density 3.5'',
      ''weight 192.16'',
      ''Vc 45.3'',
      ''lattice_a 3.5'',
      ''lattice_b 3.6'',
      ''lattice_c 3.7'',
      ''lattice_aa 90'',
      ''lattice_bb 91'',
      ''lattice_cc 92'']"

text \<open>A file that holds the first field only.\<close>

definition coh_only_hkl :: string where
  "coh_only_hkl = file_lines [''sigma_coh 88.816'']"

definition hkl_world :: "monitor list world" where
  "hkl_world =
     \<lparr>files = [''./hkl/c16.hkl'' \<mapsto> c16_hkl, ''./hkl/swapped.hkl'' \<mapsto> swapped_hkl,
               ''./hkl/no_inc.hkl'' \<mapsto> no_inc_hkl, ''./hkl/coh_only.hkl'' \<mapsto> coh_only_hkl],
      folders = [''./hkl''],
      datasets = Map.empty,
      sample_pms = [],
      sim_calls = []\<rparr>"

text \<open>
  A data set as the simulator's interface returns it is a list of monitors, and
  \<open>name_search\<close> of that interface picks the one monitor with the given component name.
\<close>

definition name_search_list :: "string \<Rightarrow> monitor list \<Rightarrow> pyerror + monitor" where
  "name_search_list name data =
     (case filter (\<lambda>m. component_name m = name) data of
        [] \<Rightarrow> Inl (NameError ''No dataset with given component name found.'')
      | [m] \<Rightarrow> Inr m
      | _ \<Rightarrow> Inl (NameError ''More than one match for the name search''))"

definition banana :: monitor where
  "banana =
     \<lparr>component_name = ''D2B_BananaTheta'', xlabel = ''Longitude [deg]'',
      ylabel = ''Intensity [n/s/bin]'', limits = [5, 165], Intensity = [4, 9],
      Ncount = [120, 340], Error = [1, 2], xaxis = [20, 21]\<rparr>"

text \<open>A simulator that always succeeds with the same data set.\<close>

definition demo_mcrun :: "sim_request \<Rightarrow> pyval dict \<Rightarrow> pyerror + monitor list" where
  "demo_mcrun rq sample = Inr [banana]"

text \<open>The configuration cell of the notebook, with one sample.\<close>

definition notebook_globals :: "monitor list globals" where
  "notebook_globals =
     \<lparr>output_folder = ''./results'', prefix = ''d2b_test'', postfix = [],
      run_simulation = True, instrument_name = ''D2B_BananaTheta'', mpi = 1,
      ncount = 10000000, lambda0s = [1, 3 / 2, 2, 5 / 2],
      colors = [''royalblue'', ''olivedrab'', ''red'', ''green'', ''pink''],
      crystal_hkls = [(''c16'', ''./hkl/c16.hkl'')],
      results = []\<rparr>"

text \<open>The notebook's variables after a sweep over one wavelength.\<close>

definition plotted_globals :: "monitor list globals" where
  "plotted_globals = notebook_globals\<lparr>lambda0s := [1], results := [(1, [(''c16'', [banana])])]\<rparr>"

text \<open>
  A one-point sweep in a world where the folder of the Sweep Point exists already and
  holds no data set (a run that was interrupted, or a directory made by hand).
\<close>

definition stale_globals :: "monitor list globals" where
  "stale_globals = notebook_globals\<lparr>lambda0s := [1]\<rparr>"

definition stale_world :: "monitor list world" where
  "stale_world = hkl_world\<lparr>folders := [''./hkl'', ''./results'', ''./results/d2b_test_1.0_c16'']\<rparr>"

text \<open>The scenario with two wavelengths and the samples \<open>a\<close> and \<open>b\<close>, in a fresh world.\<close>

definition ab_globals :: "monitor list globals" where
  "ab_globals =
     notebook_globals\<lparr>prefix := ''prefix'', lambda0s := [1, 3 / 2],
                      crystal_hkls := [(''a'', ''a.hkl''), (''b'', ''b.hkl'')]\<rparr>"

definition ab_world :: "monitor list world" where
  "ab_world =
     \<lparr>files = [''a.hkl'' \<mapsto> c16_hkl, ''b.hkl'' \<mapsto> c16_hkl],
      folders = [],
      datasets = Map.empty,
      sample_pms = [],
      sim_calls = []\<rparr>"

section \<open>Notions for the properties of the sweep\<close>

text \<open>A folder from which \<open>load_data\<close> returns a data set.\<close>

definition loadable :: "'d world \<Rightarrow> string \<Rightarrow> bool" where
  "loadable w p = (p \<in> set (folders w) \<and> datasets w p \<noteq> None)"

text \<open>
  How the world may differ after calls of the Sample Runner with output folder \<open>out\<close>:
  the files are the same, no directory and no data set is lost, and a directory without a
  data set is \<open>out\<close> itself or was such a directory before.
\<close>

definition world_grows :: "string \<Rightarrow> 'd world \<Rightarrow> 'd world \<Rightarrow> bool" where
  "world_grows out w w' =
     (files w' = files w \<and>
      set (folders w) \<subseteq> set (folders w') \<and>
      (\<forall>q. datasets w q \<noteq> None \<longrightarrow> datasets w' q \<noteq> None) \<and>
      (\<forall>q \<in> set (folders w'). datasets w' q = None \<longrightarrow>
         q = out \<or> (q \<in> set (folders w) \<and> datasets w q = None)))"

text \<open>The folders of the Sweep Points of a configuration, as the replay cell computes them.\<close>

definition sweep_folders :: "'d globals \<Rightarrow> string list" where
  "sweep_folders g =
     concat (map (\<lambda>lambda0. map (\<lambda>crys. folder_path (output_folder g) (prefix g) lambda0 crys @ postfix g)
                                 (map fst (crystal_hkls g)))
                 (lambda0s g))"

text \<open>The keys of a Result Collection: per wavelength the sample identifiers, and as pairs.\<close>

definition result_keys :: "(rat \<times> 'd dict) list \<Rightarrow> (rat \<times> string list) list" where
  "result_keys res = map (\<lambda>(lambda0, inner). (lambda0, map fst inner)) res"

definition key_pairs :: "(rat \<times> 'd dict) list \<Rightarrow> (rat \<times> string) list" where
  "key_pairs res = concat (map (\<lambda>(lambda0, inner). map (\<lambda>(crys, data). (lambda0, crys)) inner) res)"

text \<open>
  The request that the Sample Runner sends to the simulator for a Sweep Point (wavelength,
  sample identifier) and the reflection file of the sample.
\<close>

definition sample_request :: "'d globals \<Rightarrow> sim_request \<Rightarrow> rat \<times> string \<times> string \<Rightarrow> bool" where
  "sample_request g rq pt =
     (case pt of (lambda0, crys, hkl) \<Rightarrow>
        rq_foldername rq = folder_path (output_folder g) (prefix g) lambda0 crys \<and>
        rq_increment_folder_name rq \<and> rq_ncount rq = ncount g \<and> rq_mpi rq = mpi g \<and>
        rq_parameters rq = [(''lambda'', PFloat lambda0), (''RV'', PInt (- 1)), (''verbose'', PInt 1)] \<and>
        map_of (rq_sample rq) ''reflections'' = Some (PStr (CHR 0x22 # hkl @ [CHR 0x22])))"


section \<open>The reader leaves the file as it is\<close>

lemma mm_data_read_param: "mm_data (snd (read_param pyfloat pm vals mm)) = mm_data mm"
  unfolding read_param_def
  by (auto simp: mm_seek_def mm_readline_def Let_def split: sum.splits option.splits prod.splits if_splits)

lemma mm_data_read_params: "mm_data (snd (read_params pyfloat pms vals mm)) = mm_data mm"
proof (induction pms arbitrary: vals mm)
  case Nil
  show ?case by simp
next
  case (Cons pm pms)
  obtain r mm' where step: "read_param pyfloat pm vals mm = (r, mm')"
    by (cases "read_param pyfloat pm vals mm")
  have keep: "mm_data mm' = mm_data mm"
    using mm_data_read_param [of pyfloat pm vals mm] step by simp
  show ?case
  proof (cases r)
    case (Inl e)
    with step keep show ?thesis by simp
  next
    case (Inr vals')
    with step keep Cons.IH [of vals' mm'] show ?thesis by simp
  qed
qed

lemma read_hkl_world: "snd (read_hkl pyfloat hkl_file w) = w"
proof (cases "files w hkl_file")
  case None
  then show ?thesis by (simp add: read_hkl_def)
next
  case (Some content)
  obtain r mm where run: "read_params pyfloat params [] \<lparr>mm_data = content, mm_pos = 0\<rparr> = (r, mm)"
    by (cases "read_params pyfloat params [] \<lparr>mm_data = content, mm_pos = 0\<rparr>")
  have "mm_data mm = content"
    using mm_data_read_params [of pyfloat params "[]" "\<lparr>mm_data = content, mm_pos = 0\<rparr>"] run
    by simp
  moreover have "(files w)(hkl_file \<mapsto> content) = files w"
    using Some by (simp add: map_upd_triv)
  ultimately show ?thesis
    using Some run by (simp add: read_hkl_def)
qed

text \<open>
  C10.  \<open>read_hkl\<close> opens the file for reading and writing and maps it with write access,
  but it only finds, seeks and reads lines: the loop over the parameter names leaves the
  mapped bytes as they are, and whatever the file holds and however the call ends, the
  bytes of the file (and everything else in the world) are afterwards what they were
  before.
\<close>

theorem read_hkl_file_unchanged:
  "mm_data (snd (read_params pyfloat pms vals mm)) = mm_data mm \<and>
   files (snd (read_hkl pyfloat hkl_file w)) hkl_file = files w hkl_file \<and>
   snd (read_hkl pyfloat hkl_file w) = w"
proof (intro conjI)
  show "mm_data (snd (read_params pyfloat pms vals mm)) = mm_data mm"
    by (rule mm_data_read_params)
  show world: "snd (read_hkl pyfloat hkl_file w) = w"
    by (rule read_hkl_world)
  show "files (snd (read_hkl pyfloat hkl_file w)) hkl_file = files w hkl_file"
    unfolding world ..
qed

section \<open>The Parameter Mapper\<close>

lemma read_param_keys:
  "read_param pyfloat pm vals mm = (Inr vals', mm') \<Longrightarrow> \<exists>v. vals' = AList.update pm v vals"
  unfolding read_param_def
  by (auto split: sum.splits option.splits prod.splits)

lemma read_params_keys:
  "read_params pyfloat pms vals mm = (Inr vals', mm') \<Longrightarrow> fst ` set vals' = fst ` set vals \<union> set pms"
proof (induction pms arbitrary: vals mm)
  case Nil
  then show ?case by simp
next
  case (Cons pm pms)
  obtain r mm1 where step: "read_param pyfloat pm vals mm = (r, mm1)"
    by (cases "read_param pyfloat pm vals mm")
  show ?case
  proof (cases r)
    case (Inl e)
    with step Cons.prems show ?thesis by simp
  next
    case (Inr vals1)
    with step Cons.prems have rest: "read_params pyfloat pms vals1 mm1 = (Inr vals', mm')"
      by simp
    from step Inr obtain v where "vals1 = AList.update pm v vals"
      using read_param_keys by blast
    then have "fst ` set vals1 = insert pm (fst ` set vals)"
      by (simp add: AList.dom_update)
    with Cons.IH [OF rest] show ?thesis by auto
  qed
qed

lemma read_hkl_keys:
  assumes "read_hkl pyfloat hkl_file w = (Inr hkl_data, w')"
  shows "fst ` set hkl_data = set params"
proof -
  from assms obtain content mm where
    "read_params pyfloat params [] \<lparr>mm_data = content, mm_pos = 0\<rparr> = (Inr hkl_data, mm)"
    by (auto simp: read_hkl_def split: option.splits if_splits prod.splits)
  from read_params_keys [OF this] show ?thesis by simp
qed

lemma getitem_present: "k \<in> fst ` set d \<Longrightarrow> \<exists>v. getitem d k = Inr v \<and> map_of d k = Some v"
  by (cases "map_of d k") (auto simp: getitem_def map_of_eq_None_iff)

text \<open>
  C7.  Whenever \<open>read_hkl\<close> returns a field mapping for the file, \<open>hkl_to_powdern_pms\<close>
  returns the dictionary with exactly the keys \<open>Vc\<close>, \<open>density\<close>, \<open>weight\<close>,
  \<open>sigma_abs\<close>, \<open>sigma_inc\<close>, \<open>reflections\<close> and \<open>barns\<close>: the first five carry the
  reader's values, \<open>reflections\<close> is the path of the file between double quotes, and
  \<open>barns\<close> is the integer 1.
\<close>

theorem hkl_to_powdern_pms_shape:
  assumes "read_hkl pyfloat hkl_file w = (Inr hkl_data, w')"
  shows "\<exists>vc density weight sigma_abs sigma_inc.
           map_of hkl_data ''Vc'' = Some vc \<and>
           map_of hkl_data ''density'' = Some density \<and>
           map_of hkl_data ''weight'' = Some weight \<and>
           map_of hkl_data ''sigma_abs'' = Some sigma_abs \<and>
           map_of hkl_data ''sigma_inc'' = Some sigma_inc \<and>
           hkl_to_powdern_pms pyfloat hkl_file w =
             (Inr [(''Vc'', PFloat vc),
                   (''density'', PFloat density),
                   (''weight'', PFloat weight),
                   (''sigma_abs'', PFloat sigma_abs),
                   (''sigma_inc'', PFloat sigma_inc),
                   (''reflections'', PStr (CHR 0x22 # hkl_file @ [CHR 0x22])),
                   (''barns'', PInt 1)], w')"
proof -
  have keys: "fst ` set hkl_data = set params"
    using read_hkl_keys [OF assms] .
  have "''Vc'' \<in> fst ` set hkl_data" unfolding keys by (simp add: params_def)
  then obtain vc where vc: "getitem hkl_data ''Vc'' = Inr vc" "map_of hkl_data ''Vc'' = Some vc"
    using getitem_present by blast
  have "''density'' \<in> fst ` set hkl_data" unfolding keys by (simp add: params_def)
  then obtain density where density: "getitem hkl_data ''density'' = Inr density"
      "map_of hkl_data ''density'' = Some density"
    using getitem_present by blast
  have "''weight'' \<in> fst ` set hkl_data" unfolding keys by (simp add: params_def)
  then obtain weight where weight: "getitem hkl_data ''weight'' = Inr weight"
      "map_of hkl_data ''weight'' = Some weight"
    using getitem_present by blast
  have "''sigma_abs'' \<in> fst ` set hkl_data" unfolding keys by (simp add: params_def)
  then obtain sigma_abs where sigma_abs: "getitem hkl_data ''sigma_abs'' = Inr sigma_abs"
      "map_of hkl_data ''sigma_abs'' = Some sigma_abs"
    using getitem_present by blast
  have "''sigma_inc'' \<in> fst ` set hkl_data" unfolding keys by (simp add: params_def)
  then obtain sigma_inc where sigma_inc: "getitem hkl_data ''sigma_inc'' = Inr sigma_inc"
      "map_of hkl_data ''sigma_inc'' = Some sigma_inc"
    using getitem_present by blast
  have "hkl_to_powdern_pms pyfloat hkl_file w =
             (Inr [(''Vc'', PFloat vc),
                   (''density'', PFloat density),
                   (''weight'', PFloat weight),
                   (''sigma_abs'', PFloat sigma_abs),
                   (''sigma_inc'', PFloat sigma_inc),
                   (''reflections'', PStr (CHR 0x22 # hkl_file @ [CHR 0x22])),
                   (''barns'', PInt 1)], w')"
    using assms vc(1) density(1) weight(1) sigma_abs(1) sigma_inc(1)
    by (simp add: hkl_to_powdern_pms_def bind_err_def)
  with vc(2) density(2) weight(2) sigma_abs(2) sigma_inc(2) show ?thesis by blast
qed


section \<open>The reader on a file in the expected layout\<close>

lemma find_at_shift: "find_at sub xs i = map_option (\<lambda>k. k + i) (find_at sub xs 0)"
proof (induction xs arbitrary: i)
  case Nil
  show ?case by simp
next
  case (Cons c cs)
  have "find_at sub cs (Suc i) = map_option (\<lambda>k. k + Suc i) (find_at sub cs 0)"
    using Cons.IH [of "Suc i"] .
  moreover have "find_at sub cs (Suc 0) = map_option (\<lambda>k. k + Suc 0) (find_at sub cs 0)"
    using Cons.IH [of "Suc 0"] .
  ultimately show ?case
    by (cases "find_at sub cs 0") auto
qed

lemma find_at_first:
  assumes "find_at name (pre @ name) 0 = Some (length pre)" "name \<noteq> []"
  shows "find_at name (pre @ name @ after) 0 = Some (length pre)"
  using assms(1)
proof (induction pre)
  case Nil
  from assms(2) obtain c cs where "name = c # cs" by (cases name) auto
  then show ?case by simp
next
  case (Cons c p)
  have same: "take (length name) (c # p @ name @ after) = take (length name) (c # p @ name)"
    by (simp add: take_Cons')
  from Cons.prems have no: "take (length name) (c # p @ name) \<noteq> name"
    by (auto split: if_splits)
  with Cons.prems have "find_at name (p @ name) (Suc 0) = Some (Suc (length p))"
    by simp
  then have "find_at name (p @ name) 0 = Some (length p)"
    using find_at_shift [of name "p @ name" "Suc 0"] by (cases "find_at name (p @ name) 0") auto
  from Cons.IH [OF this] have "find_at name (p @ name @ after) (Suc 0) = Some (Suc (length p))"
    using find_at_shift [of name "p @ name @ after" "Suc 0"] by simp
  with no same show ?case by simp
qed

lemma line_of_append:
  "CHR 0x0A \<notin> set xs \<Longrightarrow> line_of (xs @ CHR 0x0A # after) = xs @ [CHR 0x0A]"
  by (induction xs) auto

lemma split_acc_spaces_end:
  "list_all is_space ws \<Longrightarrow> split_acc cur ws = (if cur = [] then [] else [cur])"
  by (induction ws arbitrary: cur) auto

lemma split_acc_trailing:
  "list_all is_space ws \<Longrightarrow> split_acc cur (xs @ ws) = split_acc cur xs"
  by (induction xs arbitrary: cur) (auto simp: split_acc_spaces_end)

lemma split_acc_leading:
  "list_all is_space ws \<Longrightarrow> split_acc [] (ws @ xs) = split_acc [] xs"
  by (induction ws) auto

lemma split_acc_word:
  "list_all (\<lambda>c. \<not> is_space c) xs \<Longrightarrow> split_acc cur (xs @ rest) = split_acc (cur @ xs) rest"
  by (induction xs arbitrary: cur) auto

text \<open>Stripping a byte string does not change the tokens it splits into.\<close>

lemma bytes_split_strip: "bytes_split (bytes_strip s) = bytes_split s"
proof -
  let ?t = "dropWhile is_space s"
  have "?t = rev (dropWhile is_space (rev ?t)) @ rev (takeWhile is_space (rev ?t))"
    by (metis rev_append rev_rev_ident takeWhile_dropWhile_id)
  moreover have "list_all is_space (rev (takeWhile is_space (rev ?t)))"
    by (simp add: list_all_iff) (meson set_takeWhileD)
  ultimately have "split_acc [] ?t = split_acc [] (rev (dropWhile is_space (rev ?t)))"
    using split_acc_trailing by metis
  moreover have "split_acc [] s = split_acc [] ?t"
  proof -
    have "s = takeWhile is_space s @ ?t" by simp
    moreover have "list_all is_space (takeWhile is_space s)"
      by (simp add: list_all_iff) (meson set_takeWhileD)
    ultimately show ?thesis using split_acc_leading by metis
  qed
  ultimately show ?thesis by (simp add: bytes_split_def bytes_strip_def)
qed

lemma item1_field:
  assumes "name \<noteq> []" "list_all (\<lambda>c. \<not> is_space c) name"
    "sep \<noteq> []" "list_all is_space sep"
    "tok \<noteq> []" "list_all (\<lambda>c. \<not> is_space c) tok"
    "is_space c"
  shows "item1 (bytes_split (bytes_strip (name @ sep @ tok @ c # rest))) = Inr tok"
proof -
  from assms(3) obtain b sep' where sep: "sep = b # sep'" by (cases sep) auto
  with assms(4) have b: "is_space b" "list_all is_space sep'" by auto
  have "split_acc [] (name @ sep @ tok @ c # rest) = split_acc name (sep @ tok @ c # rest)"
    using split_acc_word [OF assms(2), of "[]"] by simp
  also have "\<dots> = name # split_acc [] (sep' @ tok @ c # rest)"
    using assms(1) b(1) by (simp add: sep)
  also have "\<dots> = name # split_acc [] (tok @ c # rest)"
    using split_acc_leading [OF b(2)] by simp
  also have "\<dots> = name # split_acc tok (c # rest)"
    using split_acc_word [OF assms(6), of "[]"] by simp
  also have "\<dots> = name # tok # split_acc [] rest"
    using assms(5,7) by simp
  finally have "bytes_split (name @ sep @ tok @ c # rest) = name # tok # split_acc [] rest"
    by (simp add: bytes_split_def)
  then show ?thesis
    by (simp add: bytes_split_strip)
qed

text \<open>One pass of the loop over a well-formed field line that starts at the position.\<close>

lemma read_param_field:
  assumes ok: "fl_ok pyfloat s"
  shows "read_param pyfloat (fl_name s) vals
           \<lparr>mm_data = done @ fl_text s @ after, mm_pos = length done\<rparr> =
         (Inr (AList.update (fl_name s) (fl_val s) vals),
          \<lparr>mm_data = done @ fl_text s @ after, mm_pos = length (done @ fl_text s)\<rparr>)"
proof -
  let ?data = "done @ fl_text s @ after"
  let ?line = "fl_name s @ fl_sep s @ fl_tok s @ fl_tail s @ [CHR 0x0A]"
  from ok have first: "find_at (fl_name s) (fl_pre s @ fl_name s) 0 = Some (length (fl_pre s))"
    and name: "fl_name s \<noteq> []" "list_all (\<lambda>c. \<not> is_space c) (fl_name s)"
    and sep: "fl_sep s \<noteq> []" "list_all (\<lambda>c. is_space c \<and> c \<noteq> CHR 0x0A) (fl_sep s)"
    and tok: "fl_tok s \<noteq> []" "list_all (\<lambda>c. \<not> is_space c) (fl_tok s)"
    and tail: "case fl_tail s of [] \<Rightarrow> True | c # _ \<Rightarrow> is_space c" "CHR 0x0A \<notin> set (fl_tail s)"
    and val: "pyfloat (fl_tok s) = Some (fl_val s)"
    by (simp_all add: fl_ok_def)
  have nl: "is_space (CHR 0x0A)" by (simp add: is_space_def)
  have found: "mm_find (fl_name s) \<lparr>mm_data = ?data, mm_pos = length done\<rparr> =
      int (length done + length (fl_pre s))"
  proof -
    have "find_at (fl_name s) (fl_pre s @ fl_name s @ (fl_sep s @ fl_tok s @ fl_tail s @ [CHR 0x0A] @ after)) 0
        = Some (length (fl_pre s))"
      using find_at_first [OF first name(1)] .
    then have "find_at (fl_name s) (fl_text s @ after) (length done) = Some (length (fl_pre s) + length done)"
      using find_at_shift [of "fl_name s" "fl_text s @ after" "length done"]
      by (simp add: fl_text_def)
    then show ?thesis by (simp add: mm_find_def add.commute)
  qed
  have no_nl: "CHR 0x0A \<notin> set (fl_name s @ fl_sep s @ fl_tok s @ fl_tail s)"
    using name(2) sep(2) tok(2) tail(2) nl by (auto simp: list_all_iff)
  have line: "line_of (drop (length done + length (fl_pre s)) ?data) = ?line"
  proof -
    have "drop (length done + length (fl_pre s)) ?data =
        (fl_name s @ fl_sep s @ fl_tok s @ fl_tail s) @ CHR 0x0A # after"
      by (simp add: fl_text_def)
    then show ?thesis using line_of_append [OF no_nl, of after] by simp
  qed
  have token: "item1 (bytes_split (bytes_strip ?line)) = Inr (fl_tok s)"
  proof (cases "fl_tail s")
    case Nil
    then show ?thesis
      using item1_field [OF name sep(1) _ tok nl, of "[]"] sep(2) by (simp add: list_all_iff)
  next
    case (Cons c cs)
    with tail(1) have "is_space c" by simp
    then show ?thesis
      using item1_field [OF name sep(1) _ tok, of c "cs @ [CHR 0x0A]"] sep(2) Cons
      by (simp add: list_all_iff)
  qed
  have len: "length done + length (fl_pre s) + length ?line = length (done @ fl_text s)"
    by (simp add: fl_text_def)
  show ?thesis
    unfolding read_param_def found
    using line token val len
    by (simp add: mm_seek_def mm_readline_def Let_def fl_text_def)
qed

lemma read_params_layout:
  assumes "list_all (fl_ok pyfloat) segs"
  shows "read_params pyfloat (map fl_name segs) vals
           \<lparr>mm_data = done @ concat (map fl_text segs) @ after, mm_pos = length done\<rparr> =
         (Inr (foldl (\<lambda>d s. AList.update (fl_name s) (fl_val s) d) vals segs),
          \<lparr>mm_data = done @ concat (map fl_text segs) @ after,
           mm_pos = length (done @ concat (map fl_text segs))\<rparr>)"
  using assms
proof (induction segs arbitrary: vals "done")
  case Nil
  show ?case by simp
next
  case (Cons s segs)
  from Cons.prems have ok: "fl_ok pyfloat s" and oks: "list_all (fl_ok pyfloat) segs" by simp_all
  have step: "read_param pyfloat (fl_name s) vals
           \<lparr>mm_data = done @ fl_text s @ (concat (map fl_text segs) @ after), mm_pos = length done\<rparr> =
         (Inr (AList.update (fl_name s) (fl_val s) vals),
          \<lparr>mm_data = done @ fl_text s @ (concat (map fl_text segs) @ after),
           mm_pos = length (done @ fl_text s)\<rparr>)"
    using read_param_field [OF ok] .
  have rest: "read_params pyfloat (map fl_name segs) (AList.update (fl_name s) (fl_val s) vals)
           \<lparr>mm_data = (done @ fl_text s) @ concat (map fl_text segs) @ after,
            mm_pos = length (done @ fl_text s)\<rparr> =
         (Inr (foldl (\<lambda>d s. AList.update (fl_name s) (fl_val s) d)
                 (AList.update (fl_name s) (fl_val s) vals) segs),
          \<lparr>mm_data = (done @ fl_text s) @ concat (map fl_text segs) @ after,
           mm_pos = length ((done @ fl_text s) @ concat (map fl_text segs))\<rparr>)"
    using Cons.IH [OF oks] .
  show ?case
    using step rest by simp
qed

lemma foldl_update_fresh:
  "distinct (map fst vals @ map fl_name segs) \<Longrightarrow>
   foldl (\<lambda>d s. AList.update (fl_name s) (fl_val s) d) vals segs =
   vals @ map (\<lambda>s. (fl_name s, fl_val s)) segs"
proof (induction segs arbitrary: vals)
  case Nil
  show ?case by simp
next
  case (Cons s segs)
  from Cons.prems have fresh: "fl_name s \<notin> fst ` set vals" by auto
  then have upd: "AList.update (fl_name s) (fl_val s) vals = vals @ [(fl_name s, fl_val s)]"
    by (induction vals) auto
  from Cons.prems have "distinct (map fst (vals @ [(fl_name s, fl_val s)]) @ map fl_name segs)"
    by auto
  from Cons.IH [OF this] upd show ?case by simp
qed

lemma read_hkl_layout:
  assumes content: "files w hkl_file = Some (concat (map fl_text segs) @ after)"
    and names: "map fl_name segs = params"
    and ok: "list_all (fl_ok pyfloat) segs"
  shows "read_hkl pyfloat hkl_file w = (Inr (map (\<lambda>s. (fl_name s, fl_val s)) segs), w)"
proof -
  let ?content = "concat (map fl_text segs) @ after"
  from names obtain s segs' where "segs = s # segs'" by (cases segs) (auto simp: params_def)
  then have nonempty: "?content \<noteq> []" by (simp add: fl_text_def)
  have "distinct (map fst ([] :: rat dict) @ map fl_name segs)"
    unfolding names by (simp add: params_def)
  then have vals: "foldl (\<lambda>d s. AList.update (fl_name s) (fl_val s) d) [] segs =
      map (\<lambda>s. (fl_name s, fl_val s)) segs"
    using foldl_update_fresh [of "[]" segs] by simp
  have "read_params pyfloat params [] \<lparr>mm_data = ?content, mm_pos = 0\<rparr> =
      (Inr (map (\<lambda>s. (fl_name s, fl_val s)) segs),
       \<lparr>mm_data = ?content, mm_pos = length (concat (map fl_text segs))\<rparr>)"
    using read_params_layout [OF ok, of "[]" "[]" after] vals names by simp
  then have "fst (read_hkl pyfloat hkl_file w) = Inr (map (\<lambda>s. (fl_name s, fl_val s)) segs)"
    using content nonempty by (simp add: read_hkl_def)
  then show ?thesis
    using read_hkl_world [of pyfloat hkl_file w] by (cases "read_hkl pyfloat hkl_file w") simp
qed

text \<open>The example file is in the layout.\<close>

lemma c16_layout: "c16_hkl = concat (map fl_text c16_fields) @ ''1 1 1 8 2.0597'' @ [CHR 0x0A]"
  by (simp add: c16_hkl_def c16_fields_def file_lines_def fl_text_def)

lemma c16_names: "map fl_name c16_fields = params"
  by (simp add: c16_fields_def params_def)

lemma c16_ok: "list_all (fl_ok dec_float) c16_fields"
  by (simp add: c16_fields_def fl_ok_def dec_float_def is_space_def)

lemma c16_read:
  "read_hkl dec_float ''./hkl/c16.hkl'' hkl_world =
     (Inr (map (\<lambda>s. (fl_name s, fl_val s)) c16_fields), hkl_world)"
proof -
  have "files hkl_world ''./hkl/c16.hkl'' =
      Some (concat (map fl_text c16_fields) @ ''1 1 1 8 2.0597'' @ [CHR 0x0A])"
    unfolding c16_layout [symmetric] by (simp add: hkl_world_def)
  from read_hkl_layout [OF this c16_names c16_ok] show ?thesis .
qed

lemmas reader_eval = read_hkl_def params_def read_param_def mm_find_def mm_seek_def
    mm_readline_def bytes_strip_def bytes_split_def is_space_def dec_float_def Let_def file_lines_def

text \<open>
  C1, as the code has it.  The specification promises the twelve values for the fields
  in any order; the reader searches each name from the position the previous line left,
  so the fields have to come in the order of its own list.  For every file that holds the twelve
  field lines in that order, each well formed (\<^const>\<open>fl_ok\<close>: the name's bytes do not
  occur between the previous field line and the name; blanks after the name; a token that
  \<open>float\<close> accepts; anything after the token separated by whitespace), whatever text
  stands between and after them, \<open>read_hkl\<close> returns exactly the twelve names, each with
  the value of its token, and leaves the world as it was.
\<close>

theorem read_hkl_in_order:
  assumes "files w hkl_file = Some (concat (map fl_text segs) @ after)"
    and "map fl_name segs = params"
    and "list_all (fl_ok pyfloat) segs"
  shows "read_hkl pyfloat hkl_file w = (Inr (map (\<lambda>s. (fl_name s, fl_val s)) segs), w) \<and>
         map fst (map (\<lambda>s. (fl_name s, fl_val s)) segs) = params \<and>
         list_all (\<lambda>s. pyfloat (fl_tok s) = Some (fl_val s)) segs"
proof -
  have "map fst (map (\<lambda>s. (fl_name s, fl_val s)) segs) = params"
    using assms(2) by (simp add: comp_def)
  moreover have "list_all (\<lambda>s. pyfloat (fl_tok s) = Some (fl_val s)) segs"
    using assms(3) by (simp add: list_all_iff fl_ok_def)
  ultimately show ?thesis
    using read_hkl_layout [OF assms] by simp
qed

text \<open>The example file, with header text, comments and a reflection after the fields.\<close>

theorem read_hkl_in_order_witness:
  "files hkl_world ''./hkl/c16.hkl'' = Some (concat (map fl_text c16_fields) @ ''1 1 1 8 2.0597'' @ [CHR 0x0A]) \<and>
   map fl_name c16_fields = params \<and>
   list_all (fl_ok dec_float) c16_fields \<and>
   read_hkl dec_float ''./hkl/c16.hkl'' hkl_world =
     (Inr [(''sigma_coh'', 88816 / 1000), (''sigma_inc'', 16 / 1000), (''sigma_abs'', 172 / 1000),
           (''density'', 35 / 10), (''weight'', 19216 / 100), (''Vc'', 453 / 10),
           (''lattice_a'', 35 / 10), (''lattice_b'', 36 / 10), (''lattice_c'', 37 / 10),
           (''lattice_aa'', 90), (''lattice_bb'', 91), (''lattice_cc'', 92)], hkl_world)"
proof -
  have f: "files hkl_world ''./hkl/c16.hkl'' =
      Some (concat (map fl_text c16_fields) @ ''1 1 1 8 2.0597'' @ [CHR 0x0A])"
    unfolding c16_layout [symmetric] by (simp add: hkl_world_def)
  have "map (\<lambda>s. (fl_name s, fl_val s)) c16_fields =
      [(''sigma_coh'', 88816 / 1000), (''sigma_inc'', 16 / 1000), (''sigma_abs'', 172 / 1000),
           (''density'', 35 / 10), (''weight'', 19216 / 100), (''Vc'', 453 / 10),
           (''lattice_a'', 35 / 10), (''lattice_b'', 36 / 10), (''lattice_c'', 37 / 10),
           (''lattice_aa'', 90), (''lattice_bb'', 91), (''lattice_cc'', 92)]"
    by (simp add: c16_fields_def)
  with read_hkl_in_order [OF f c16_names c16_ok] f c16_names c16_ok show ?thesis by simp
qed

text \<open>
  The twelve field lines with \<open>sigma_inc\<close> before \<open>sigma_coh\<close>: the search for
  \<open>sigma_inc\<close> starts behind the \<open>sigma_coh\<close> line, finds nothing, and \<open>seek(-1)\<close> raises.
\<close>

theorem read_hkl_any_order_counterexample:
  "fst (read_hkl dec_float ''./hkl/swapped.hkl'' hkl_world) = Inl (ValueError ''seek out of range'')"
  by (simp add: hkl_world_def swapped_hkl_def reader_eval)


text \<open>
  C8.  In a file in the reader's layout whose \<open>sigma_abs\<close> line is
  \<^verbatim>\<open>sigma_abs   0.1720   # comment\<close>, \<open>read_hkl\<close> returns for \<open>sigma_abs\<close> the float of
  the token \<open>0.1720\<close>: the comment and every token after the value are ignored.
\<close>

theorem read_hkl_ignores_comment:
  assumes "files w hkl_file = Some (concat (map fl_text segs) @ after)"
    and "map fl_name segs = params"
    and "list_all (fl_ok pyfloat) segs"
    and "s \<in> set segs"
    and "fl_name s @ fl_sep s @ fl_tok s @ fl_tail s = ''sigma_abs   0.1720   # comment''"
    and "fl_name s = ''sigma_abs''" and "fl_tok s = ''0.1720''"
  shows "\<exists>hkl_data. read_hkl pyfloat hkl_file w = (Inr hkl_data, w) \<and>
           map_of hkl_data ''sigma_abs'' = pyfloat ''0.1720''"
proof -
  let ?vals = "map (\<lambda>s. (fl_name s, fl_val s)) segs"
  have "distinct (map fst ?vals)"
    using assms(2) by (simp add: comp_def params_def)
  moreover have "(''sigma_abs'', fl_val s) \<in> set ?vals"
    using assms(4,6) by force
  ultimately have "map_of ?vals ''sigma_abs'' = Some (fl_val s)"
    by (simp only: map_of_eq_Some_iff)
  moreover have "pyfloat ''0.1720'' = Some (fl_val s)"
    using assms(3,4,7) by (auto simp: list_all_iff fl_ok_def)
  ultimately show ?thesis
    using read_hkl_layout [OF assms(1-3)] by simp
qed

text \<open>The third field line of the example file is that line.\<close>

theorem read_hkl_ignores_comment_witness:
  "c16_fields ! 2 \<in> set c16_fields \<and>
   fl_name (c16_fields ! 2) @ fl_sep (c16_fields ! 2) @ fl_tok (c16_fields ! 2) @ fl_tail (c16_fields ! 2)
     = ''sigma_abs   0.1720   # comment'' \<and>
   map_of (map (\<lambda>s. (fl_name s, fl_val s)) c16_fields) ''sigma_abs'' = Some (172 / 1000) \<and>
   dec_float ''0.1720'' = Some (172 / 1000)"
proof -
  let ?s = "c16_fields ! 2"
  have f: "files hkl_world ''./hkl/c16.hkl'' =
      Some (concat (map fl_text c16_fields) @ ''1 1 1 8 2.0597'' @ [CHR 0x0A])"
    unfolding c16_layout [symmetric] by (simp add: hkl_world_def)
  have m: "?s \<in> set c16_fields" by (simp add: c16_fields_def)
  have l: "fl_name ?s @ fl_sep ?s @ fl_tok ?s @ fl_tail ?s = ''sigma_abs   0.1720   # comment''"
    by (simp add: c16_fields_def)
  have n: "fl_name ?s = ''sigma_abs''" and t: "fl_tok ?s = ''0.1720''"
    by (simp_all add: c16_fields_def)
  have d: "dec_float ''0.1720'' = Some (172 / 1000)"
    by (simp add: dec_float_def)
  from read_hkl_ignores_comment [OF f c16_names c16_ok m l n t] obtain hkl_data where
    "read_hkl dec_float ''./hkl/c16.hkl'' hkl_world = (Inr hkl_data, hkl_world)"
    "map_of hkl_data ''sigma_abs'' = dec_float ''0.1720''"
    by blast
  with c16_read d m l show ?thesis by simp
qed

text \<open>The Parameter Mapper on the example file.\<close>

theorem hkl_to_powdern_pms_shape_witness:
  "read_hkl dec_float ''./hkl/c16.hkl'' hkl_world =
     (Inr (map (\<lambda>s. (fl_name s, fl_val s)) c16_fields), hkl_world) \<and>
   hkl_to_powdern_pms dec_float ''./hkl/c16.hkl'' hkl_world =
     (Inr [(''Vc'', PFloat (453 / 10)),
           (''density'', PFloat (35 / 10)),
           (''weight'', PFloat (19216 / 100)),
           (''sigma_abs'', PFloat (172 / 1000)),
           (''sigma_inc'', PFloat (16 / 1000)),
           (''reflections'', PStr (CHR 0x22 # ''./hkl/c16.hkl'' @ [CHR 0x22])),
           (''barns'', PInt 1)], hkl_world)"
proof -
  let ?vals = "map (\<lambda>s. (fl_name s, fl_val s)) c16_fields"
  from hkl_to_powdern_pms_shape [OF c16_read] obtain vc density weight sigma_abs sigma_inc where
    "map_of ?vals ''Vc'' = Some vc" "map_of ?vals ''density'' = Some density"
    "map_of ?vals ''weight'' = Some weight" "map_of ?vals ''sigma_abs'' = Some sigma_abs"
    "map_of ?vals ''sigma_inc'' = Some sigma_inc"
    "hkl_to_powdern_pms dec_float ''./hkl/c16.hkl'' hkl_world =
             (Inr [(''Vc'', PFloat vc),
                   (''density'', PFloat density),
                   (''weight'', PFloat weight),
                   (''sigma_abs'', PFloat sigma_abs),
                   (''sigma_inc'', PFloat sigma_inc),
                   (''reflections'', PStr (CHR 0x22 # ''./hkl/c16.hkl'' @ [CHR 0x22])),
                   (''barns'', PInt 1)], hkl_world)"
    by blast
  with c16_read show ?thesis by (simp add: c16_fields_def)
qed

section \<open>A file without one of the names\<close>

lemma find_at_None_drop:
  "find_at sub xs 0 = None \<Longrightarrow> find_at sub (drop k xs) i = None"
proof (induction xs arbitrary: k i)
  case Nil
  then show ?case by (simp split: if_splits)
next
  case (Cons c cs)
  from Cons.prems have test: "take (length sub) (c # cs) \<noteq> sub"
    and "find_at sub cs (Suc 0) = None"
    by (auto split: if_splits)
  then have tl: "find_at sub cs 0 = None"
    using find_at_shift [of sub cs "Suc 0"] by simp
  show ?case
  proof (cases k)
    case 0
    have "find_at sub cs (Suc i) = None"
      using Cons.IH [OF tl, of 0 "Suc i"] by simp
    with test 0 show ?thesis by simp
  next
    case (Suc k')
    then show ?thesis using Cons.IH [OF tl, of k' i] by simp
  qed
qed

lemma read_param_absent:
  assumes "find_at pm (mm_data mm) 0 = None"
  shows "read_param pyfloat pm vals mm = (Inl (ValueError ''seek out of range''), mm)"
proof -
  have "mm_find pm mm = - 1"
    using find_at_None_drop [OF assms, of "mm_pos mm" "mm_pos mm"] by (simp add: mm_find_def)
  then show ?thesis by (simp add: read_param_def mm_seek_def)
qed

lemma read_params_absent:
  assumes "pm \<in> set pms" "find_at pm (mm_data mm) 0 = None"
  shows "\<exists>e. fst (read_params pyfloat pms vals mm) = Inl e"
  using assms
proof (induction pms arbitrary: vals mm)
  case Nil
  then show ?case by simp
next
  case (Cons p pms)
  obtain r mm1 where step: "read_param pyfloat p vals mm = (r, mm1)"
    by (cases "read_param pyfloat p vals mm")
  have keep: "mm_data mm1 = mm_data mm"
    using mm_data_read_param [of pyfloat p vals mm] step by simp
  show ?case
  proof (cases r)
    case (Inl e)
    with step show ?thesis by simp
  next
    case (Inr vals1)
    have "p \<noteq> pm"
    proof
      assume "p = pm"
      with step Inr read_param_absent [OF Cons.prems(2), of pyfloat vals] show False by simp
    qed
    with Cons.prems(1) have "pm \<in> set pms" by simp
    from Cons.IH [OF this, of mm1 vals1] keep Cons.prems(2) step Inr show ?thesis by simp
  qed
qed

lemma read_params_append:
  "read_params pyfloat (ps1 @ ps2) vals mm =
     (case read_params pyfloat ps1 vals mm of
        (Inl e, mm') \<Rightarrow> (Inl e, mm')
      | (Inr vals', mm') \<Rightarrow> read_params pyfloat ps2 vals' mm')"
  by (induction ps1 arbitrary: vals mm) (auto split: prod.splits sum.splits)

lemma read_params_reaches_absent:
  assumes "find_at pm (mm_data mm) 0 = None"
    and "fst (read_params pyfloat ps1 vals mm) = Inr vals1"
  shows "fst (read_params pyfloat (ps1 @ pm # ps2) vals mm) = Inl (ValueError ''seek out of range'')"
proof -
  obtain mm1 where first: "read_params pyfloat ps1 vals mm = (Inr vals1, mm1)"
    using assms(2) by (cases "read_params pyfloat ps1 vals mm") simp
  have "mm_data mm1 = mm_data mm"
    using mm_data_read_params [of pyfloat ps1 vals mm] first by simp
  with assms(1) have "read_param pyfloat pm vals1 mm1 = (Inl (ValueError ''seek out of range''), mm1)"
    using read_param_absent by simp
  with first show ?thesis by (simp add: read_params_append)
qed

lemma fst_read_hkl:
  "files w hkl_file = Some content \<Longrightarrow> content \<noteq> [] \<Longrightarrow>
   fst (read_hkl pyfloat hkl_file w) = fst (read_params pyfloat params [] \<lparr>mm_data = content, mm_pos = 0\<rparr>)"
  by (simp add: read_hkl_def split: prod.splits)

text \<open>
  C2, as the code has it.  The notebook has no \<open>MissingFieldError\<close>.  For every file in
  which the bytes of a required name occur nowhere, \<open>read_hkl\<close> raises an exception and
  returns no mapping, partial or whole, and the world stays as it was.  When the file is
  not empty and the names before the absent one are read without an exception, the
  exception is the \<open>ValueError\<close> of \<open>mm.seek(-1)\<close>, \<open>seek out of range\<close>, which does not
  name the field.
\<close>

theorem read_hkl_absent_name:
  assumes "files w hkl_file = Some content" and "pm \<in> set params"
    and "find_at pm content 0 = None"
  shows "(\<exists>e. read_hkl pyfloat hkl_file w = (Inl e, w)) \<and>
         (\<forall>ps1 ps2 vals.
            content \<noteq> [] \<and> params = ps1 @ pm # ps2 \<and>
            fst (read_params pyfloat ps1 [] \<lparr>mm_data = content, mm_pos = 0\<rparr>) = Inr vals \<longrightarrow>
            read_hkl pyfloat hkl_file w = (Inl (ValueError ''seek out of range''), w))"
proof (intro conjI allI impI)
  have "\<exists>e. fst (read_hkl pyfloat hkl_file w) = Inl e"
  proof (cases "content = []")
    case True
    with assms(1) show ?thesis by (simp add: read_hkl_def)
  next
    case False
    from read_params_absent [OF assms(2), of "\<lparr>mm_data = content, mm_pos = 0\<rparr>" pyfloat "[]"] assms(3)
    show ?thesis using fst_read_hkl [OF assms(1) False] by simp
  qed
  then show "\<exists>e. read_hkl pyfloat hkl_file w = (Inl e, w)"
    using read_hkl_world [of pyfloat hkl_file w] by (cases "read_hkl pyfloat hkl_file w") simp
next
  fix ps1 ps2 vals
  assume h: "content \<noteq> [] \<and> params = ps1 @ pm # ps2 \<and>
            fst (read_params pyfloat ps1 [] \<lparr>mm_data = content, mm_pos = 0\<rparr>) = Inr vals"
  then have "fst (read_params pyfloat params [] \<lparr>mm_data = content, mm_pos = 0\<rparr>) =
      Inl (ValueError ''seek out of range'')"
    using read_params_reaches_absent [of pm "\<lparr>mm_data = content, mm_pos = 0\<rparr>" pyfloat ps1 "[]" vals ps2]
      assms(3) by simp
  with h have "fst (read_hkl pyfloat hkl_file w) = Inl (ValueError ''seek out of range'')"
    using fst_read_hkl [OF assms(1)] by simp
  then show "read_hkl pyfloat hkl_file w = (Inl (ValueError ''seek out of range''), w)"
    using read_hkl_world [of pyfloat hkl_file w] by (cases "read_hkl pyfloat hkl_file w") simp
qed

text \<open>A file that ends after the \<open>sigma_coh\<close> line.\<close>

theorem read_hkl_absent_name_witness:
  "fst (read_params dec_float [''sigma_coh''] [] \<lparr>mm_data = coh_only_hkl, mm_pos = 0\<rparr>) =
     Inr [(''sigma_coh'', 88816 / 1000)] \<and>
   find_at ''sigma_inc'' coh_only_hkl 0 = None \<and>
   read_hkl dec_float ''./hkl/coh_only.hkl'' hkl_world = (Inl (ValueError ''seek out of range''), hkl_world)"
proof -
  have f: "files hkl_world ''./hkl/coh_only.hkl'' = Some coh_only_hkl"
    by (simp add: hkl_world_def)
  have m: "''sigma_inc'' \<in> set params" by (simp add: params_def)
  have a: "find_at ''sigma_inc'' coh_only_hkl 0 = None"
    by (simp add: coh_only_hkl_def file_lines_def)
  have n: "coh_only_hkl \<noteq> []" by (simp add: coh_only_hkl_def file_lines_def)
  have p: "params = [''sigma_coh''] @ ''sigma_inc'' # [''sigma_abs'', ''density'', ''weight'', ''Vc'',
             ''lattice_a'', ''lattice_b'', ''lattice_c'', ''lattice_aa'', ''lattice_bb'',
             ''lattice_cc'']"
    by (simp add: params_def)
  have r: "fst (read_params dec_float [''sigma_coh''] [] \<lparr>mm_data = coh_only_hkl, mm_pos = 0\<rparr>) =
     Inr [(''sigma_coh'', 88816 / 1000)]"
    by (simp add: coh_only_hkl_def reader_eval)
  from read_hkl_absent_name [OF f m a, of dec_float] n p r a show ?thesis by blast
qed

text \<open>
  A file with every field line but the one of \<open>sigma_inc\<close>: the exception is the
  \<open>ValueError\<close> of \<open>seek\<close>, and its message does not name \<open>sigma_inc\<close>.
\<close>

theorem read_hkl_absent_name_counterexample:
  "find_at ''sigma_inc'' no_inc_hkl 0 = None \<and>
   fst (read_hkl dec_float ''./hkl/no_inc.hkl'' hkl_world) = Inl (ValueError ''seek out of range'')"
  by (simp add: hkl_world_def no_inc_hkl_def reader_eval)


section \<open>The output folder of a Sweep Point\<close>

lemma digit_char_digit: "d < 10 \<Longrightarrow> digit_char d \<in> set ''0123456789''"
proof -
  assume "d < 10"
  then have "d = 0 \<or> d = 1 \<or> d = 2 \<or> d = 3 \<or> d = 4 \<or> d = 5 \<or> d = 6 \<or> d = 7 \<or> d = 8 \<or> d = 9"
    by arith
  then consider "d = 0" | "d = 1" | "d = 2" | "d = 3" | "d = 4" | "d = 5" | "d = 6" | "d = 7"
    | "d = 8" | "d = 9"
    by blast
  then show ?thesis
  proof cases
    case 1
    have "digit_char 0 = CHR ''0''" by code_simp
    with 1 show ?thesis by simp
  next
    case 2
    have "digit_char 1 = CHR ''1''" by code_simp
    with 2 show ?thesis by simp
  next
    case 3
    have "digit_char 2 = CHR ''2''" by code_simp
    with 3 show ?thesis by simp
  next
    case 4
    have "digit_char 3 = CHR ''3''" by code_simp
    with 4 show ?thesis by simp
  next
    case 5
    have "digit_char 4 = CHR ''4''" by code_simp
    with 5 show ?thesis by simp
  next
    case 6
    have "digit_char 5 = CHR ''5''" by code_simp
    with 6 show ?thesis by simp
  next
    case 7
    have "digit_char 6 = CHR ''6''" by code_simp
    with 7 show ?thesis by simp
  next
    case 8
    have "digit_char 7 = CHR ''7''" by code_simp
    with 8 show ?thesis by simp
  next
    case 9
    have "digit_char 8 = CHR ''8''" by code_simp
    with 9 show ?thesis by simp
  next
    case 10
    have "digit_char 9 = CHR ''9''" by code_simp
    with 10 show ?thesis by simp
  qed
qed

lemma string_of_nat_digits: "set (string_of_nat n) \<subseteq> set ''0123456789''"
proof (induction n rule: string_of_nat.induct)
  case (1 n)
  show ?case
  proof (cases "n < 10")
    case True
    then show ?thesis
      using digit_char_digit [of n] by (subst string_of_nat.simps) simp
  next
    case False
    have "n mod 10 < 10" by simp
    from digit_char_digit [OF this] 1 [OF False] False show ?thesis
      by (subst string_of_nat.simps) simp
  qed
qed

lemma fmt1_no_underscore: "CHR ''_'' \<notin> set (fmt1 x)"
proof -
  have no: "CHR ''_'' \<notin> set ''0123456789''" by simp
  then have a: "CHR ''_'' \<notin> set (string_of_nat n)" for n
    using string_of_nat_digits [of n] by blast
  have b: "CHR ''_'' \<noteq> digit_char (n mod 10)" for n
  proof -
    have "n mod 10 < 10" by simp
    from digit_char_digit [OF this] no show ?thesis by metis
  qed
  show ?thesis
    by (simp add: fmt1_def Let_def a b)
qed

lemma cut_at_first:
  "c \<notin> set xs \<Longrightarrow> c \<notin> set ys \<Longrightarrow> (xs @ c # r1 = ys @ c # r2) = (xs = ys \<and> r1 = r2)"
proof (induction xs arbitrary: ys)
  case Nil
  then show ?case by (cases ys) auto
next
  case (Cons x xs)
  then show ?case by (cases ys) auto
qed

lemma folder_path_eq_iff:
  "(folder_path out pre l1 s1 = folder_path out pre l2 s2) = (fmt1 l1 = fmt1 l2 \<and> s1 = s2)"
proof -
  have "(fmt1 l1 @ CHR ''_'' # s1 = fmt1 l2 @ CHR ''_'' # s2) = (fmt1 l1 = fmt1 l2 \<and> s1 = s2)"
    using cut_at_first [OF fmt1_no_underscore fmt1_no_underscore] .
  then show ?thesis by (simp add: folder_path_def)
qed

lemma fmt1_1: "fmt1 1 = ''1.0''" by code_simp
lemma fmt1_15: "fmt1 (3 / 2) = ''1.5''" by code_simp
lemma fmt1_2: "fmt1 2 = ''2.0''" by code_simp
lemma fmt1_25: "fmt1 (5 / 2) = ''2.5''" by code_simp

lemma notebook_inj: "inj_on (\<lambda>(l, s). folder_path out pre l s) (set [1, 3 / 2, 2, 5 / 2] \<times> UNIV)"
  unfolding inj_on_def
  by (auto simp: folder_path_eq_iff fmt1_1 fmt1_15 fmt1_2 fmt1_25)

text \<open>
  C3, as the code has it.  The path is a function of output folder, prefix, wavelength and
  sample identifier, but the wavelength enters it rounded to one decimal place: two Sweep
  Points of one configuration get the same path exactly when their sample identifiers are
  equal and their wavelengths print the same with \<open>:.1f\<close>.  So the formula is injective
  on every product whose wavelengths still differ after rounding to one decimal place,
  as the notebook's own 1.0, 1.5, 2.0, 2.5 do, and not on every configured product.
\<close>

theorem folder_path_collision_iff:
  "((folder_path out pre l1 s1 = folder_path out pre l2 s2) = (fmt1 l1 = fmt1 l2 \<and> s1 = s2)) \<and>
   inj_on (\<lambda>(l, s). folder_path out pre l s) (set [1, 3 / 2, 2, 5 / 2] \<times> UNIV)"
proof
  show "(folder_path out pre l1 s1 = folder_path out pre l2 s2) = (fmt1 l1 = fmt1 l2 \<and> s1 = s2)"
    by (rule folder_path_eq_iff)
  show "inj_on (\<lambda>(l, s). folder_path out pre l s) (set [1, 3 / 2, 2, 5 / 2] \<times> UNIV)"
    by (rule notebook_inj)
qed

text \<open>
  The wavelengths 1.0 and 1.03125 are different floats and give the sample \<open>c16\<close> the
  same folder, \<open>./results/d2b_test_1.0_c16\<close>.
\<close>

theorem folder_path_collision_counterexample:
  "folder_path ''./results'' ''d2b_test'' 1 ''c16'' = folder_path ''./results'' ''d2b_test'' (33 / 32) ''c16''
   \<and> (1 :: rat) \<noteq> 33 / 32"
  by code_simp

section \<open>The Comparison Plotter and the notebook's variables\<close>

lemma plot_crystals_globals:
  "snd (plot_crystals name_search lambda0 i crystals cs loc g) = g"
  by (induction name_search lambda0 i crystals cs loc g rule: plot_crystals.induct)
     (auto simp: Let_def split: sum.splits)

text \<open>
  C9, as the code has it.  \<open>ncount = pattern.Ncount\<close> stands in the body of
  \<open>plot_diffr\<close>, which declares no name \<open>global\<close>: the assignment binds a local of the
  call.  Whatever is plotted and however the call ends, every variable of the notebook,
  the sweep configuration's \<open>ncount\<close> among them, holds afterwards the value it held
  before.
\<close>

theorem plot_diffr_keeps_globals:
  "fst (snd (plot_diffr name_search crystals_to_plot g)) = g \<and>
   ncount (fst (snd (plot_diffr name_search crystals_to_plot g))) = ncount g"
proof -
  have "fst (snd (plot_lambdas name_search ls crystals_to_plot loc g shown)) = g"
    for ls loc shown
  proof (induction ls arbitrary: loc shown)
    case Nil
    show ?case by simp
  next
    case (Cons lambda0 rest)
    obtain r g' where inner: "plot_crystals name_search lambda0 0 crystals_to_plot [] loc g = (r, g')"
      by (cases "plot_crystals name_search lambda0 0 crystals_to_plot [] loc g")
    have g': "g' = g"
      using plot_crystals_globals [of name_search lambda0 0 crystals_to_plot "[]" loc g] inner by simp
    show ?case
      using inner g' Cons.IH by (auto split: sum.splits option.splits prod.splits)
  qed
  then show ?thesis by (simp add: plot_diffr_def)
qed

text \<open>
  Plotting \<open>c16\<close> from a data set whose monitor counted \<open>[120, 340]\<close> rays: the local
  \<open>ncount\<close> of the call is bound to that array, the plot is shown, and the notebook's
  \<open>ncount\<close> is still the configured \<open>1e7\<close>.
\<close>

theorem plot_diffr_counterexample:
  "fst (plot_crystals name_search_list 1 0 [''c16''] [] no_locals plotted_globals) =
     Inr ([\<lparr>cv_label = ''c16'', cv_color = ''royalblue'', cv_x = [20, 21], cv_y = [4, 9]\<rparr>],
          \<lparr>loc_name = Some ''D2B_BananaTheta'', loc_xlabel = Some ''Longitude [deg]'',
           loc_ylabel = Some ''Intensity [n/s/bin]'', loc_xlims = Some [5, 165],
           loc_intensity = Some [4, 9], loc_ncount = Some [120, 340], loc_error = Some [1, 2],
           loc_xvals = Some [20, 21]\<rparr>) \<and>
   fst (plot_diffr name_search_list [''c16''] plotted_globals) = Inr () \<and>
   ncount (fst (snd (plot_diffr name_search_list [''c16''] plotted_globals))) = 10000000"
  by (simp add: plot_diffr_def plotted_globals_def notebook_globals_def no_locals_def
      name_search_list_def banana_def getitem_float_def getitem_def bind_err_def)

section \<open>The Sample Runner and the world\<close>

lemma hkl_pms_form:
  assumes "hkl_to_powdern_pms pyfloat hkl_file w = (r, w')"
  shows "w' = w"
    and "r = Inr pms \<Longrightarrow>
         \<exists>vc density weight sigma_abs sigma_inc.
           pms = [(''Vc'', PFloat vc), (''density'', PFloat density), (''weight'', PFloat weight),
                  (''sigma_abs'', PFloat sigma_abs), (''sigma_inc'', PFloat sigma_inc),
                  (''reflections'', PStr (CHR 0x22 # hkl_file @ [CHR 0x22])), (''barns'', PInt 1)]"
proof -
  obtain r0 w0 where rd: "read_hkl pyfloat hkl_file w = (r0, w0)"
    by (cases "read_hkl pyfloat hkl_file w")
  then have w0: "w0 = w"
    using read_hkl_world [of pyfloat hkl_file w] by simp
  show "w' = w"
    using assms rd w0 by (cases r0) (auto simp: hkl_to_powdern_pms_def)
  show "\<exists>vc density weight sigma_abs sigma_inc.
           pms = [(''Vc'', PFloat vc), (''density'', PFloat density), (''weight'', PFloat weight),
                  (''sigma_abs'', PFloat sigma_abs), (''sigma_inc'', PFloat sigma_inc),
                  (''reflections'', PStr (CHR 0x22 # hkl_file @ [CHR 0x22])), (''barns'', PInt 1)]"
    if "r = Inr pms"
    using assms rd that
    by (cases r0) (auto simp: hkl_to_powdern_pms_def bind_err_def split: sum.splits)
qed

lemma data_folder_name_fresh:
  assumes "data_folder_name f inc fs = Some p"
  shows "p \<notin> set fs" and "f \<notin> set fs \<Longrightarrow> p = f"
proof -
  show "f \<notin> set fs \<Longrightarrow> p = f"
    using assms by (simp add: data_folder_name_def)
  show "p \<notin> set fs"
  proof (cases "f \<in> set fs")
    case False
    with assms show ?thesis by (simp add: data_folder_name_def)
  next
    case True
    with assms obtain k where
      "find (\<lambda>k. f @ ''_'' @ string_of_nat k \<notin> set fs) [0..<Suc (length fs)] = Some k"
      "p = f @ ''_'' @ string_of_nat k"
      by (auto simp: data_folder_name_def split: if_splits)
    then show ?thesis by (auto simp: find_Some_iff)
  qed
qed

lemma digit_char_inj: "a < 10 \<Longrightarrow> b < 10 \<Longrightarrow> digit_char a = digit_char b \<Longrightarrow> a = b"
  by (simp add: digit_char_def char_of_eq_iff take_bit_nat_eq_self)

lemma string_of_nat_nonempty: "string_of_nat n \<noteq> []"
  by (subst string_of_nat.simps) simp

lemma string_of_nat_inj: "string_of_nat n = string_of_nat m \<Longrightarrow> n = m"
proof (induction n arbitrary: m rule: string_of_nat.induct)
  case (1 n)
  show ?case
  proof (cases "n < 10")
    case True
    then have n: "string_of_nat n = [digit_char n]"
      by (subst string_of_nat.simps) simp
    show ?thesis
    proof (cases "m < 10")
      case m: True
      then have "string_of_nat m = [digit_char m]"
        by (subst string_of_nat.simps) simp
      with n "1.prems" True m show ?thesis using digit_char_inj by simp
    next
      case False
      then have "string_of_nat m = string_of_nat (m div 10) @ [digit_char (m mod 10)]"
        by (subst string_of_nat.simps) simp
      with n "1.prems" string_of_nat_nonempty [of "m div 10"] show ?thesis by simp
    qed
  next
    case False
    then have n: "string_of_nat n = string_of_nat (n div 10) @ [digit_char (n mod 10)]"
      by (subst string_of_nat.simps) simp
    show ?thesis
    proof (cases "m < 10")
      case True
      then have "string_of_nat m = [digit_char m]"
        by (subst string_of_nat.simps) simp
      with n "1.prems" string_of_nat_nonempty [of "n div 10"] show ?thesis by simp
    next
      case m: False
      then have "string_of_nat m = string_of_nat (m div 10) @ [digit_char (m mod 10)]"
        by (subst string_of_nat.simps) simp
      with n "1.prems" have eq: "string_of_nat (n div 10) = string_of_nat (m div 10)"
        "digit_char (n mod 10) = digit_char (m mod 10)"
        by simp_all
      from "1.IH" [OF False eq(1)] have "n div 10 = m div 10" .
      moreover have "n mod 10 = m mod 10"
        using digit_char_inj [OF _ _ eq(2)] by simp
      ultimately show ?thesis
        by (metis div_mult_mod_eq)
    qed
  qed
qed

text \<open>With \<open>increment_folder_name\<close> the simulator always finds a folder to write to.\<close>

lemma data_folder_name_increment: "\<exists>p. data_folder_name f True fs = Some p"
proof (cases "f \<in> set fs")
  case False
  then show ?thesis by (simp add: data_folder_name_def)
next
  case True
  let ?name = "\<lambda>k. f @ ''_'' @ string_of_nat k"
  have "\<exists>k \<in> set [0..<Suc (length fs)]. ?name k \<notin> set fs"
  proof (rule ccontr)
    assume all: "\<not> (\<exists>k \<in> set [0..<Suc (length fs)]. ?name k \<notin> set fs)"
    have sub: "?name ` {0..<Suc (length fs)} \<subseteq> set fs"
    proof
      fix x
      assume "x \<in> ?name ` {0..<Suc (length fs)}"
      then obtain k where k: "k < Suc (length fs)" "x = ?name k" by auto
      from k(1) have "k \<in> set [0..<Suc (length fs)]" by (simp only: set_upt atLeastLessThan_iff) simp
      with all k(2) show "x \<in> set fs" by blast
    qed
    have "inj_on ?name {0..<Suc (length fs)}"
      by (auto simp: inj_on_def dest: string_of_nat_inj)
    then have "card (?name ` {0..<Suc (length fs)}) = Suc (length fs)"
      by (simp add: card_image)
    moreover have "card (?name ` {0..<Suc (length fs)}) \<le> card (set fs)"
      using sub by (simp add: card_mono)
    moreover have "card (set fs) \<le> length fs" by (rule card_length)
    ultimately show False by simp
  qed
  then have "find (\<lambda>k. ?name k \<notin> set fs) [0..<Suc (length fs)] \<noteq> None"
    by (simp only: find_None_iff) blast
  with True show ?thesis by (auto simp: data_folder_name_def)
qed


lemma world_grows_refl: "world_grows out w w"
  by (simp add: world_grows_def)

lemma world_grows_trans:
  "world_grows out w w1 \<Longrightarrow> world_grows out w1 w2 \<Longrightarrow> world_grows out w w2"
  unfolding world_grows_def by (intro conjI) (simp, blast, blast, blast)

lemma run_full_instrument_grows:
  assumes "run_full_instrument mcrun rq w = (r, w')"
  shows "world_grows out w w'"
proof (cases "data_folder_name (rq_foldername rq) (rq_increment_folder_name rq) (folders w)")
  case None
  with assms show ?thesis by (auto simp: run_full_instrument_def world_grows_def)
next
  case (Some p)
  note fresh = data_folder_name_fresh(1) [OF Some]
  show ?thesis
  proof (cases "mcrun (rq\<lparr>rq_foldername := p\<rparr>) (sample_pms w)")
    case (Inl e)
    with assms Some show ?thesis by (auto simp: run_full_instrument_def world_grows_def)
  next
    case (Inr d)
    with assms Some have w': "w' = w\<lparr>sim_calls := sim_calls w @ [rq], folders := folders w @ [p],
        datasets := (datasets w)(p \<mapsto> d)\<rparr>"
      by (simp add: run_full_instrument_def)
    show ?thesis
      unfolding world_grows_def w' using fresh by auto
  qed
qed

lemma run_on_sample_grows:
  assumes "run_on_sample pyfloat mcrun g sample_name hkl_file lambda0 n m w = (r, w')"
  shows "world_grows (output_folder g) w w'"
proof -
  let ?out = "output_folder g"
  define w1 where "w1 = (if \<not> path_exists w ?out then makedirs ?out w else w)"
  have g1: "world_grows ?out w w1"
    by (auto simp: w1_def makedirs_def world_grows_def)
  obtain r2 w2 where pm: "hkl_to_powdern_pms pyfloat hkl_file w1 = (r2, w2)"
    by (cases "hkl_to_powdern_pms pyfloat hkl_file w1")
  then have w2: "w2 = w1" using hkl_pms_form(1) by blast
  show ?thesis
  proof (cases r2)
    case (Inl e)
    with assms pm w2 have "w' = w1"
      by (simp add: run_on_sample_def w1_def [symmetric])
    with g1 show ?thesis by simp
  next
    case (Inr pms)
    let ?w3 = "set_parameters pms w1"
    have g3: "world_grows ?out w1 ?w3"
      by (simp add: set_parameters_def world_grows_def)
    from assms pm w2 Inr obtain rq where "run_full_instrument mcrun rq ?w3 = (r, w')"
      by (simp add: run_on_sample_def w1_def [symmetric] Let_def)
    from run_full_instrument_grows [OF this] have "world_grows ?out ?w3 w'" .
    with g1 g3 show ?thesis using world_grows_trans by blast
  qed
qed

lemma folder_path_not_out: "folder_path out pre lambda0 crys @ post \<noteq> out"
proof
  assume "folder_path out pre lambda0 crys @ post = out"
  then have "length (folder_path out pre lambda0 crys @ post) = length out" by simp
  then show False by (simp add: folder_path_def)
qed

text \<open>What a successful call of the Sample Runner has done.\<close>

lemma run_on_sample_Inr:
  assumes "run_on_sample pyfloat mcrun g sample_name hkl_file lambda0 n m w = (Inr d, w')"
  shows "\<exists>rq. sim_calls w' = sim_calls w @ [rq] \<and>
           rq_foldername rq = folder_path (output_folder g) (prefix g) lambda0 sample_name \<and>
           rq_increment_folder_name rq \<and> rq_ncount rq = n \<and> rq_mpi rq = m \<and>
           rq_parameters rq = [(''lambda'', PFloat lambda0), (''RV'', PInt (- 1)), (''verbose'', PInt 1)] \<and>
           map_of (rq_sample rq) ''reflections'' = Some (PStr (CHR 0x22 # hkl_file @ [CHR 0x22]))"
    and "folder_path (output_folder g) (prefix g) lambda0 sample_name \<in> set (folders w')"
proof -
  let ?out = "output_folder g"
  let ?fp = "folder_path ?out (prefix g) lambda0 sample_name"
  define w1 where "w1 = (if \<not> path_exists w ?out then makedirs ?out w else w)"
  have calls1: "sim_calls w1 = sim_calls w"
    by (simp add: w1_def makedirs_def)
  obtain r2 w2 where pm: "hkl_to_powdern_pms pyfloat hkl_file w1 = (r2, w2)"
    by (cases "hkl_to_powdern_pms pyfloat hkl_file w1")
  then have w2: "w2 = w1" using hkl_pms_form(1) by blast
  from assms pm w2 obtain pms where r2: "r2 = Inr pms"
    by (cases r2) (auto simp: run_on_sample_def w1_def [symmetric])
  from hkl_pms_form(2) [OF pm r2] obtain vc density weight sigma_abs sigma_inc where
    pms: "pms = [(''Vc'', PFloat vc), (''density'', PFloat density), (''weight'', PFloat weight),
                  (''sigma_abs'', PFloat sigma_abs), (''sigma_inc'', PFloat sigma_inc),
                  (''reflections'', PStr (CHR 0x22 # hkl_file @ [CHR 0x22])), (''barns'', PInt 1)]"
    by blast
  let ?w3 = "set_parameters pms w1"
  let ?rq = "\<lparr>rq_foldername = ?fp, rq_increment_folder_name = True, rq_ncount = n, rq_mpi = m,
              rq_parameters = [(''lambda'', PFloat lambda0), (''RV'', PInt (- 1)), (''verbose'', PInt 1)],
              rq_sample = sample_pms ?w3\<rparr>"
  have run: "run_full_instrument mcrun ?rq ?w3 = (Inr d, w')"
    using assms pm w2 r2 by (simp add: run_on_sample_def w1_def [symmetric] Let_def)
  have refl: "map_of (sample_pms ?w3) ''reflections'' = Some (PStr (CHR 0x22 # hkl_file @ [CHR 0x22]))"
    by (simp add: set_parameters_def pms update_conv')
  have f3: "folders ?w3 = folders w1" and c3: "sim_calls ?w3 = sim_calls w"
    by (simp_all add: set_parameters_def calls1)
  from run obtain p where
    p: "data_folder_name ?fp True (folders w1) = Some p"
    and w': "folders w' = folders w1 @ [p]" "sim_calls w' = sim_calls w @ [?rq]"
    by (auto simp: run_full_instrument_def Let_def f3 c3 split: option.splits sum.splits)
  show "\<exists>rq. sim_calls w' = sim_calls w @ [rq] \<and>
           rq_foldername rq = ?fp \<and>
           rq_increment_folder_name rq \<and> rq_ncount rq = n \<and> rq_mpi rq = m \<and>
           rq_parameters rq = [(''lambda'', PFloat lambda0), (''RV'', PInt (- 1)), (''verbose'', PInt 1)] \<and>
           map_of (rq_sample rq) ''reflections'' = Some (PStr (CHR 0x22 # hkl_file @ [CHR 0x22]))"
    using w'(2) refl by (intro exI [of _ ?rq]) simp
  show "?fp \<in> set (folders w')"
    using data_folder_name_fresh(2) [OF p] w'(1) by auto
qed


section \<open>The loops of the execute cell\<close>

lemma execute_crystals_grows:
  assumes "execute_crystals pyfloat mcrun lambda0 items g w = (r, g', w')"
  shows "world_grows (output_folder g) w w' \<and> (\<exists>res. g' = g\<lparr>results := res\<rparr>)"
  using assms
proof (induction items arbitrary: g w)
  case Nil
  then have "g' = g\<lparr>results := results g\<rparr>" "w' = w" by simp_all
  then show ?case using world_grows_refl by blast
next
  case (Cons item items)
  obtain crys hkl where item: "item = (crys, hkl)" by (cases item)
  obtain r1 w1 where run: "run_on_sample pyfloat mcrun g crys hkl lambda0 (ncount g) (mpi g) w = (r1, w1)"
    by (cases "run_on_sample pyfloat mcrun g crys hkl lambda0 (ncount g) (mpi g) w")
  note g1 = run_on_sample_grows [OF run]
  show ?case
  proof (cases r1)
    case (Inl e)
    with Cons.prems item run have "w' = w1" "g' = g\<lparr>results := results g\<rparr>" by simp_all
    with g1 show ?thesis by blast
  next
    case (Inr d)
    show ?thesis
    proof (cases "setitem2 lambda0 crys d (results g)")
      case (Inl e)
      with Cons.prems item run Inr have "w' = w1" "g' = g\<lparr>results := results g\<rparr>" by simp_all
      with g1 show ?thesis by blast
    next
      case (Inr res)
      with Cons.prems item run \<open>r1 = Inr d\<close>
      have rest: "execute_crystals pyfloat mcrun lambda0 items (g\<lparr>results := res\<rparr>) w1 = (r, g', w')"
        by simp
      from Cons.IH [OF rest] obtain res' where
        "world_grows (output_folder g) w1 w'" "g' = g\<lparr>results := res'\<rparr>"
        by auto
      with g1 show ?thesis using world_grows_trans by blast
    qed
  qed
qed

lemma execute_crystals_Inr:
  assumes "execute_crystals pyfloat mcrun lambda0 items g w = (Inr (), g', w')"
  shows "(\<exists>rqs. sim_calls w' = sim_calls w @ rqs \<and>
           list_all2 (sample_request g) rqs (map (\<lambda>(crys, hkl). (lambda0, crys, hkl)) items)) \<and>
         (\<forall>crys \<in> fst ` set items.
            folder_path (output_folder g) (prefix g) lambda0 crys \<in> set (folders w'))"
  using assms
proof (induction items arbitrary: g w)
  case Nil
  then show ?case by simp
next
  case (Cons item items)
  obtain crys hkl where item: "item = (crys, hkl)" by (cases item)
  from Cons.prems item obtain d w1 res where
    run: "run_on_sample pyfloat mcrun g crys hkl lambda0 (ncount g) (mpi g) w = (Inr d, w1)"
    and rest: "execute_crystals pyfloat mcrun lambda0 items (g\<lparr>results := res\<rparr>) w1 = (Inr (), g', w')"
    by (auto split: prod.splits sum.splits)
  from run_on_sample_Inr(1) [OF run] obtain rq where
    rq: "sim_calls w1 = sim_calls w @ [rq]" "sample_request g rq (lambda0, crys, hkl)"
    by (auto simp: sample_request_def)
  have same: "sample_request (g\<lparr>results := res\<rparr>) = sample_request g"
    by (simp add: sample_request_def fun_eq_iff)
  from Cons.IH [OF rest] obtain rqs where
    rqs: "sim_calls w' = sim_calls w1 @ rqs"
      "list_all2 (sample_request g) rqs (map (\<lambda>(crys, hkl). (lambda0, crys, hkl)) items)"
    and later: "\<forall>crys \<in> fst ` set items.
            folder_path (output_folder g) (prefix g) lambda0 crys \<in> set (folders w')"
    by (auto simp: same)
  have "\<exists>rqs. sim_calls w' = sim_calls w @ rqs \<and>
           list_all2 (sample_request g) rqs (map (\<lambda>(crys, hkl). (lambda0, crys, hkl)) (item # items))"
    using rq rqs item by (intro exI [of _ "rq # rqs"]) simp
  moreover have "folder_path (output_folder g) (prefix g) lambda0 crys \<in> set (folders w')"
  proof -
    have "folder_path (output_folder g) (prefix g) lambda0 crys \<in> set (folders w1)"
      using run_on_sample_Inr(2) [OF run] .
    moreover have "set (folders w1) \<subseteq> set (folders w')"
      using execute_crystals_grows [OF rest] by (simp add: world_grows_def)
    ultimately show ?thesis by blast
  qed
  ultimately show ?case
    using later item by simp
qed

lemma execute_lambdas_grows:
  assumes "execute_lambdas pyfloat mcrun ls g w = (r, g', w')"
  shows "world_grows (output_folder g) w w' \<and> (\<exists>res. g' = g\<lparr>results := res\<rparr>)"
  using assms
proof (induction ls arbitrary: g w)
  case Nil
  then have "g' = g\<lparr>results := results g\<rparr>" "w' = w" by simp_all
  then show ?case using world_grows_refl by blast
next
  case (Cons lambda0 ls)
  let ?g0 = "g\<lparr>results := AList.update lambda0 [] (results g)\<rparr>"
  obtain r1 g1 w1 where inner: "execute_crystals pyfloat mcrun lambda0 (crystal_hkls g) ?g0 w = (r1, g1, w1)"
    by (cases "execute_crystals pyfloat mcrun lambda0 (crystal_hkls g) ?g0 w")
  from execute_crystals_grows [OF inner] obtain res1 where
    g1: "world_grows (output_folder g) w w1" "g1 = g\<lparr>results := res1\<rparr>"
    by auto
  show ?case
  proof (cases r1)
    case (Inl e)
    with Cons.prems inner have "w' = w1" "g' = g1" by simp_all
    with g1 show ?thesis by blast
  next
    case (Inr u)
    with Cons.prems inner have rest: "execute_lambdas pyfloat mcrun ls g1 w1 = (r, g', w')"
      by simp
    from Cons.IH [OF rest] g1(2) obtain res' where
      "world_grows (output_folder g) w1 w'" "g' = g\<lparr>results := res'\<rparr>"
      by auto
    with g1(1) show ?thesis using world_grows_trans by blast
  qed
qed

lemma execute_lambdas_Inr:
  assumes "execute_lambdas pyfloat mcrun ls g w = (Inr (), g', w')"
  shows "(\<exists>rqs. sim_calls w' = sim_calls w @ rqs \<and>
           list_all2 (sample_request g) rqs
             (concat (map (\<lambda>lambda0. map (\<lambda>(crys, hkl). (lambda0, crys, hkl)) (crystal_hkls g)) ls))) \<and>
         (\<forall>lambda0 \<in> set ls. \<forall>crys \<in> fst ` set (crystal_hkls g).
            folder_path (output_folder g) (prefix g) lambda0 crys \<in> set (folders w'))"
  using assms
proof (induction ls arbitrary: g w)
  case Nil
  then show ?case by simp
next
  case (Cons lambda0 ls)
  let ?g0 = "g\<lparr>results := AList.update lambda0 [] (results g)\<rparr>"
  from Cons.prems obtain g1 w1 where
    inner: "execute_crystals pyfloat mcrun lambda0 (crystal_hkls g) ?g0 w = (Inr (), g1, w1)"
    and rest: "execute_lambdas pyfloat mcrun ls g1 w1 = (Inr (), g', w')"
    by (auto split: prod.splits sum.splits)
  from execute_crystals_grows [OF inner] obtain res1 where g1: "g1 = g\<lparr>results := res1\<rparr>"
    by auto
  have same: "sample_request (g\<lparr>results := res\<rparr>) = sample_request g" for res
    by (simp add: sample_request_def fun_eq_iff)
  from execute_crystals_Inr [OF inner] obtain rqs1 where
    rqs1: "sim_calls w1 = sim_calls w @ rqs1"
      "list_all2 (sample_request g) rqs1 (map (\<lambda>(crys, hkl). (lambda0, crys, hkl)) (crystal_hkls g))"
    and here: "\<forall>crys \<in> fst ` set (crystal_hkls g).
        folder_path (output_folder g) (prefix g) lambda0 crys \<in> set (folders w1)"
    by (auto simp: same)
  from Cons.IH [OF rest] obtain rqs where
    rqs: "sim_calls w' = sim_calls w1 @ rqs"
      "list_all2 (sample_request g) rqs
         (concat (map (\<lambda>lambda0. map (\<lambda>(crys, hkl). (lambda0, crys, hkl)) (crystal_hkls g)) ls))"
    and later: "\<forall>lambda0 \<in> set ls. \<forall>crys \<in> fst ` set (crystal_hkls g).
            folder_path (output_folder g) (prefix g) lambda0 crys \<in> set (folders w')"
    by (auto simp: g1 same)
  have "\<exists>rqs. sim_calls w' = sim_calls w @ rqs \<and>
           list_all2 (sample_request g) rqs
             (concat (map (\<lambda>lambda0. map (\<lambda>(crys, hkl). (lambda0, crys, hkl)) (crystal_hkls g))
                (lambda0 # ls)))"
    using rqs1 rqs by (intro exI [of _ "rqs1 @ rqs"]) (simp add: list_all2_appendI)
  moreover have "set (folders w1) \<subseteq> set (folders w')"
    using execute_lambdas_grows [OF rest] by (simp add: world_grows_def)
  ultimately show ?case
    using here later by auto
qed


section \<open>The loops of the replay cell\<close>

lemma load_data_loadable: "loadable w f \<Longrightarrow> \<exists>d. load_data f w = (Inr d, w)"
  by (auto simp: loadable_def load_data_def)

lemma load_data_not_loadable:
  "\<not> loadable w f \<Longrightarrow>
   load_data f w = (Inl (NameError ''Given data directory does not exist.''), w) \<or>
   load_data f w = (Inl (NameError ''No mccode.sim in data folder.''), w)"
  by (auto simp: loadable_def load_data_def)

lemma setitem2_present:
  "map_of res lambda0 = Some inner \<Longrightarrow>
   setitem2 lambda0 crys d res = Inr (AList.update lambda0 (AList.update crys d inner) res)"
  by (simp add: setitem2_def getitem_float_def bind_err_def)

lemma replay_crystals_run:
  assumes "map_of (results g) lambda0 \<noteq> None"
  shows "\<exists>r res. replay_crystals lambda0 cs g w = (r, g\<lparr>results := res\<rparr>, w) \<and>
           map_of res lambda0 \<noteq> None \<and>
           ((r = Inr ()) =
              (\<forall>crys \<in> set cs. loadable w (folder_path (output_folder g) (prefix g) lambda0 crys @ postfix g))) \<and>
           (r = Inr () \<or> r = Inl (NameError ''Given data directory does not exist.'') \<or>
            r = Inl (NameError ''No mccode.sim in data folder.''))"
  using assms
proof (induction cs arbitrary: g)
  case Nil
  have "replay_crystals lambda0 [] g w = (Inr (), g\<lparr>results := results g\<rparr>, w)" by simp
  with Nil show ?case by (intro exI [of _ "Inr ()"] exI [of _ "results g"]) simp
next
  case (Cons crys cs)
  let ?folder = "folder_path (output_folder g) (prefix g) lambda0 crys @ postfix g"
  show ?case
  proof (cases "loadable w ?folder")
    case False
    from load_data_not_loadable [OF this] obtain e where
      e: "load_data ?folder w = (Inl e, w)"
        "e = NameError ''Given data directory does not exist.'' \<or> e = NameError ''No mccode.sim in data folder.''"
      by blast
    then have "replay_crystals lambda0 (crys # cs) g w = (Inl e, g\<lparr>results := results g\<rparr>, w)"
      by (simp add: Let_def)
    with False e(2) Cons.prems show ?thesis
      by (intro exI [of _ "Inl e"] exI [of _ "results g"]) auto
  next
    case True
    from load_data_loadable [OF this] obtain d where d: "load_data ?folder w = (Inr d, w)" by blast
    from Cons.prems obtain inner where inner: "map_of (results g) lambda0 = Some inner" by auto
    let ?res = "AList.update lambda0 (AList.update crys d inner) (results g)"
    let ?g1 = "g\<lparr>results := ?res\<rparr>"
    have step: "replay_crystals lambda0 (crys # cs) g w = replay_crystals lambda0 cs ?g1 w"
      using d setitem2_present [OF inner] by (simp add: Let_def)
    have "map_of (results ?g1) lambda0 \<noteq> None" by (simp add: update_conv')
    from Cons.IH [OF this] obtain r res where
      "replay_crystals lambda0 cs ?g1 w = (r, g\<lparr>results := res\<rparr>, w)"
      "map_of res lambda0 \<noteq> None"
      "(r = Inr ()) =
         (\<forall>crys \<in> set cs. loadable w (folder_path (output_folder g) (prefix g) lambda0 crys @ postfix g))"
      "r = Inr () \<or> r = Inl (NameError ''Given data directory does not exist.'') \<or>
       r = Inl (NameError ''No mccode.sim in data folder.'')"
      by auto
    with step True show ?thesis
      by (intro exI [of _ r] exI [of _ res]) simp
  qed
qed

lemma replay_lambdas_run:
  "\<exists>r res. replay_lambdas ls g w = (r, g\<lparr>results := res\<rparr>, w) \<and>
     ((r = Inr ()) =
        (\<forall>lambda0 \<in> set ls. \<forall>crys \<in> fst ` set (crystal_hkls g).
           loadable w (folder_path (output_folder g) (prefix g) lambda0 crys @ postfix g))) \<and>
     (r = Inr () \<or> r = Inl (NameError ''Given data directory does not exist.'') \<or>
      r = Inl (NameError ''No mccode.sim in data folder.''))"
proof (induction ls arbitrary: g)
  case Nil
  have "replay_lambdas [] g w = (Inr (), g\<lparr>results := results g\<rparr>, w)" by simp
  then show ?case by (intro exI [of _ "Inr ()"] exI [of _ "results g"]) simp
next
  case (Cons lambda0 ls)
  let ?g0 = "g\<lparr>results := AList.update lambda0 [] (results g)\<rparr>"
  have "map_of (results ?g0) lambda0 \<noteq> None" by (simp add: update_conv')
  from replay_crystals_run [OF this, of "map fst (crystal_hkls g)" w] obtain r1 res1 where
    inner: "replay_crystals lambda0 (map fst (crystal_hkls g)) ?g0 w = (r1, g\<lparr>results := res1\<rparr>, w)"
    and ok1: "(r1 = Inr ()) =
         (\<forall>crys \<in> fst ` set (crystal_hkls g).
            loadable w (folder_path (output_folder g) (prefix g) lambda0 crys @ postfix g))"
    and err1: "r1 = Inr () \<or> r1 = Inl (NameError ''Given data directory does not exist.'') \<or>
       r1 = Inl (NameError ''No mccode.sim in data folder.'')"
    by auto
  show ?case
  proof (cases r1)
    case (Inl e)
    with inner have "replay_lambdas (lambda0 # ls) g w = (Inl e, g\<lparr>results := res1\<rparr>, w)"
      by simp
    with Inl ok1 err1 show ?thesis
      by (intro exI [of _ "Inl e"] exI [of _ res1]) auto
  next
    case (Inr u)
    with inner have step: "replay_lambdas (lambda0 # ls) g w = replay_lambdas ls (g\<lparr>results := res1\<rparr>) w"
      by simp
    from Cons.IH [of "g\<lparr>results := res1\<rparr>"] obtain r res where
      "replay_lambdas ls (g\<lparr>results := res1\<rparr>) w = (r, g\<lparr>results := res\<rparr>, w)"
      "(r = Inr ()) =
        (\<forall>lambda0 \<in> set ls. \<forall>crys \<in> fst ` set (crystal_hkls g).
           loadable w (folder_path (output_folder g) (prefix g) lambda0 crys @ postfix g))"
      "r = Inr () \<or> r = Inl (NameError ''Given data directory does not exist.'') \<or>
        r = Inl (NameError ''No mccode.sim in data folder.'')"
      by auto
    with step Inr ok1 show ?thesis
      by (intro exI [of _ r] exI [of _ res]) auto
  qed
qed

section \<open>The keys of the Result Collection\<close>

lemma result_keys_update:
  "result_keys (AList.update lambda0 inner res) = AList.update lambda0 (map fst inner) (result_keys res)"
  by (induction res) (auto simp: result_keys_def)

lemma map_of_result_keys:
  "map_of (result_keys res) lambda0 = map_option (map fst) (map_of res lambda0)"
  by (induction res) (auto simp: result_keys_def)

lemma setitem2_keys:
  assumes "setitem2 lambda0 crys d1 res1 = Inr r1" "setitem2 lambda0 crys d2 res2 = Inr r2"
    and "result_keys res1 = result_keys res2"
  shows "result_keys r1 = result_keys r2"
proof -
  from assms(1) obtain inner1 where i1: "map_of res1 lambda0 = Some inner1"
    "r1 = AList.update lambda0 (AList.update crys d1 inner1) res1"
    by (auto simp: setitem2_def getitem_float_def bind_err_def split: option.splits)
  from assms(2) obtain inner2 where i2: "map_of res2 lambda0 = Some inner2"
    "r2 = AList.update lambda0 (AList.update crys d2 inner2) res2"
    by (auto simp: setitem2_def getitem_float_def bind_err_def split: option.splits)
  have "map fst inner1 = map fst inner2"
    using map_of_result_keys [of res1 lambda0] map_of_result_keys [of res2 lambda0] assms(3) i1(1) i2(1)
    by simp
  then have "map fst (AList.update crys d1 inner1) = map fst (AList.update crys d2 inner2)"
    by (simp add: update_keys)
  with assms(3) show ?thesis
    by (simp add: i1(2) i2(2) result_keys_update)
qed

lemma keys_crystals:
  assumes "result_keys (results g1) = result_keys (results g2)"
    and "execute_crystals pyfloat mcrun lambda0 items g1 w1 = (Inr (), g1', w1')"
    and "replay_crystals lambda0 (map fst items) g2 w2 = (Inr (), g2', w2')"
  shows "result_keys (results g1') = result_keys (results g2')"
  using assms
proof (induction items arbitrary: g1 g2 w1 w2)
  case Nil
  then show ?case by simp
next
  case (Cons item items)
  obtain crys hkl where item: "item = (crys, hkl)" by (cases item)
  from Cons.prems(2) item obtain d1 w1a res1 where
    s1: "setitem2 lambda0 crys d1 (results g1) = Inr res1"
    and rest1: "execute_crystals pyfloat mcrun lambda0 items (g1\<lparr>results := res1\<rparr>) w1a = (Inr (), g1', w1')"
    by (auto split: prod.splits sum.splits)
  from Cons.prems(3) item obtain d2 w2a res2 where
    s2: "setitem2 lambda0 crys d2 (results g2) = Inr res2"
    and rest2: "replay_crystals lambda0 (map fst items) (g2\<lparr>results := res2\<rparr>) w2a = (Inr (), g2', w2')"
    by (auto simp: Let_def split: prod.splits sum.splits)
  have "result_keys (results (g1\<lparr>results := res1\<rparr>)) = result_keys (results (g2\<lparr>results := res2\<rparr>))"
    using setitem2_keys [OF s1 s2 Cons.prems(1)] by simp
  from Cons.IH [OF this rest1 rest2] show ?case .
qed

lemma keys_lambdas:
  assumes "result_keys (results g1) = result_keys (results g2)"
    and "crystal_hkls g2 = crystal_hkls g1"
    and "execute_lambdas pyfloat mcrun ls g1 w1 = (Inr (), g1', w1')"
    and "replay_lambdas ls g2 w2 = (Inr (), g2', w2')"
  shows "result_keys (results g1') = result_keys (results g2')"
  using assms
proof (induction ls arbitrary: g1 g2 w1 w2)
  case Nil
  then show ?case by simp
next
  case (Cons lambda0 ls)
  let ?g1 = "g1\<lparr>results := AList.update lambda0 [] (results g1)\<rparr>"
  let ?g2 = "g2\<lparr>results := AList.update lambda0 [] (results g2)\<rparr>"
  from Cons.prems(3) obtain g1a w1a where
    in1: "execute_crystals pyfloat mcrun lambda0 (crystal_hkls g1) ?g1 w1 = (Inr (), g1a, w1a)"
    and rest1: "execute_lambdas pyfloat mcrun ls g1a w1a = (Inr (), g1', w1')"
    by (auto split: prod.splits sum.splits)
  from Cons.prems(4) obtain g2a w2a where
    in2: "replay_crystals lambda0 (map fst (crystal_hkls g2)) ?g2 w2 = (Inr (), g2a, w2a)"
    and rest2: "replay_lambdas ls g2a w2a = (Inr (), g2', w2')"
    by (auto split: prod.splits sum.splits)
  have start: "result_keys (results ?g1) = result_keys (results ?g2)"
    using Cons.prems(1) by (simp add: result_keys_update)
  have keys: "result_keys (results g1a) = result_keys (results g2a)"
    using keys_crystals [OF start in1] in2 Cons.prems(2) by simp
  from execute_crystals_grows [OF in1] obtain r1 where "g1a = g1\<lparr>results := r1\<rparr>" by auto
  moreover from replay_crystals_run [of ?g2 lambda0 "map fst (crystal_hkls g2)" w2] in2
  obtain r2 where "g2a = g2\<lparr>results := r2\<rparr>" by (auto simp: update_conv')
  ultimately have "crystal_hkls g2a = crystal_hkls g1a"
    using Cons.prems(2) by simp
  from Cons.IH [OF keys this rest1 rest2] show ?case .
qed

lemma key_pairs_result_keys:
  "key_pairs res = concat (map (\<lambda>(lambda0, ks). map (Pair lambda0) ks) (result_keys res))"
  by (induction res) (auto simp: key_pairs_def result_keys_def)



section \<open>What the replay cell stores\<close>



lemma execute_lambdas_loadable:
  assumes "execute_lambdas pyfloat mcrun ls g w = (Inr (), g', w')"
    and "lambda0 \<in> set ls" and "crys \<in> fst ` set (crystal_hkls g)"
    and "folder_path (output_folder g) (prefix g) lambda0 crys \<in> set (folders w) \<longrightarrow>
         datasets w (folder_path (output_folder g) (prefix g) lambda0 crys) \<noteq> None"
  shows "loadable w' (folder_path (output_folder g) (prefix g) lambda0 crys)"
proof -
  let ?p = "folder_path (output_folder g) (prefix g) lambda0 crys"
  from execute_lambdas_grows [OF assms(1)] have grows: "world_grows (output_folder g) w w'"
    by simp
  have there: "?p \<in> set (folders w')"
    using conjunct2 [OF execute_lambdas_Inr [OF assms(1)]] assms(2,3) by auto
  have "datasets w' ?p \<noteq> None"
  proof
    assume none: "datasets w' ?p = None"
    with grows there have "?p = output_folder g \<or> (?p \<in> set (folders w) \<and> datasets w ?p = None)"
      unfolding world_grows_def by blast
    moreover have "?p \<noteq> output_folder g"
      using folder_path_not_out [of "output_folder g" "prefix g" lambda0 crys "[]"] by simp
    ultimately show False using assms(4) by blast
  qed
  with there show ?thesis by (simp add: loadable_def)
qed

section \<open>The sweep\<close>

text \<open>
  C4.  With the wavelengths \<open>(1.0, 1.5)\<close>, the samples \<open>a\<close> and \<open>b\<close> and the prefix
  \<open>prefix\<close>, a sweep in execute mode that runs to its end has sent exactly four requests
  to the simulator, one per call of the Sample Runner, in the order \<open>(1.0, a)\<close>,
  \<open>(1.0, b)\<close>, \<open>(1.5, a)\<close>, \<open>(1.5, b)\<close>: each names the folder of its Sweep Point
  (\<open>prefix_1.0_a\<close>, \<open>prefix_1.0_b\<close>, \<open>prefix_1.5_a\<close>, \<open>prefix_1.5_b\<close> under the
  output folder), its wavelength and the reflection file of its sample.  The four folders
  exist afterwards, and each holds a data set unless it existed without one before.
\<close>

theorem execute_two_by_two:
  assumes "run_simulation g"
    and "lambda0s g = [1, 3 / 2]"
    and "crystal_hkls g = [(''a'', ''a.hkl''), (''b'', ''b.hkl'')]"
    and "prefix g = ''prefix''"
    and "execute_cell pyfloat mcrun g w = (Inr (), g', w')"
  shows "\<exists>r1 r2 r3 r4.
           sim_calls w' = sim_calls w @ [r1, r2, r3, r4] \<and>
           map rq_foldername [r1, r2, r3, r4] =
             [output_folder g @ ''/prefix_1.0_a'', output_folder g @ ''/prefix_1.0_b'',
              output_folder g @ ''/prefix_1.5_a'', output_folder g @ ''/prefix_1.5_b''] \<and>
           map (\<lambda>rq. map_of (rq_parameters rq) ''lambda'') [r1, r2, r3, r4] =
             [Some (PFloat 1), Some (PFloat 1), Some (PFloat (3 / 2)), Some (PFloat (3 / 2))] \<and>
           map (\<lambda>rq. map_of (rq_sample rq) ''reflections'') [r1, r2, r3, r4] =
             [Some (PStr (CHR 0x22 # ''a.hkl'' @ [CHR 0x22])), Some (PStr (CHR 0x22 # ''b.hkl'' @ [CHR 0x22])),
              Some (PStr (CHR 0x22 # ''a.hkl'' @ [CHR 0x22])), Some (PStr (CHR 0x22 # ''b.hkl'' @ [CHR 0x22]))] \<and>
           (\<forall>p \<in> set [output_folder g @ ''/prefix_1.0_a'', output_folder g @ ''/prefix_1.0_b'',
                        output_folder g @ ''/prefix_1.5_a'', output_folder g @ ''/prefix_1.5_b''].
              p \<in> set (folders w') \<and>
              ((p \<in> set (folders w) \<longrightarrow> datasets w p \<noteq> None) \<longrightarrow> datasets w' p \<noteq> None))"
proof -
  let ?g0 = "g\<lparr>results := []\<rparr>"
  from assms(1,2,5) have run: "execute_lambdas pyfloat mcrun [1, 3 / 2] ?g0 w = (Inr (), g', w')"
    by (simp add: execute_cell_def)
  have same: "sample_request ?g0 = sample_request g"
    by (simp add: sample_request_def fun_eq_iff)
  from execute_lambdas_Inr [OF run] assms(3) obtain rqs where
    calls: "sim_calls w' = sim_calls w @ rqs"
    and each: "list_all2 (sample_request g) rqs
        [(1, ''a'', ''a.hkl''), (1, ''b'', ''b.hkl''), (3 / 2, ''a'', ''a.hkl''), (3 / 2, ''b'', ''b.hkl'')]"
    and dirs: "\<forall>lambda0 \<in> set [1, 3 / 2]. \<forall>crys \<in> fst ` set (crystal_hkls g).
            folder_path (output_folder g) (prefix g) lambda0 crys \<in> set (folders w')"
    by (auto simp: same)
  from each obtain r1 r2 r3 r4 where
    rqs: "rqs = [r1, r2, r3, r4]"
    and r1: "sample_request g r1 (1, ''a'', ''a.hkl'')"
    and r2: "sample_request g r2 (1, ''b'', ''b.hkl'')"
    and r3: "sample_request g r3 (3 / 2, ''a'', ''a.hkl'')"
    and r4: "sample_request g r4 (3 / 2, ''b'', ''b.hkl'')"
    by (auto simp: list_all2_Cons2)
  have paths: "folder_path (output_folder g) ''prefix'' 1 crys = output_folder g @ ''/prefix_1.0_'' @ crys"
    "folder_path (output_folder g) ''prefix'' (3 / 2) crys = output_folder g @ ''/prefix_1.5_'' @ crys"
    for crys
    by (simp_all add: folder_path_def fmt1_1 fmt1_15)
  have point: "folder_path (output_folder g) (prefix g) lambda0 crys \<in> set (folders w') \<and>
      ((folder_path (output_folder g) (prefix g) lambda0 crys \<in> set (folders w) \<longrightarrow>
          datasets w (folder_path (output_folder g) (prefix g) lambda0 crys) \<noteq> None) \<longrightarrow>
        datasets w' (folder_path (output_folder g) (prefix g) lambda0 crys) \<noteq> None)"
    if "lambda0 \<in> set [1, 3 / 2]" "crys \<in> fst ` set (crystal_hkls g)" for lambda0 crys
  proof
    show "folder_path (output_folder g) (prefix g) lambda0 crys \<in> set (folders w')"
      using dirs that by blast
    show "(folder_path (output_folder g) (prefix g) lambda0 crys \<in> set (folders w) \<longrightarrow>
          datasets w (folder_path (output_folder g) (prefix g) lambda0 crys) \<noteq> None) \<longrightarrow>
        datasets w' (folder_path (output_folder g) (prefix g) lambda0 crys) \<noteq> None"
    proof
      assume "folder_path (output_folder g) (prefix g) lambda0 crys \<in> set (folders w) \<longrightarrow>
          datasets w (folder_path (output_folder g) (prefix g) lambda0 crys) \<noteq> None"
      with execute_lambdas_loadable [OF run, of lambda0 crys] that
      show "datasets w' (folder_path (output_folder g) (prefix g) lambda0 crys) \<noteq> None"
        by (simp add: loadable_def)
    qed
  qed
  have folders: "\<forall>p \<in> set [output_folder g @ ''/prefix_1.0_a'', output_folder g @ ''/prefix_1.0_b'',
                        output_folder g @ ''/prefix_1.5_a'', output_folder g @ ''/prefix_1.5_b''].
              p \<in> set (folders w') \<and>
              ((p \<in> set (folders w) \<longrightarrow> datasets w p \<noteq> None) \<longrightarrow> datasets w' p \<noteq> None)"
    using point [of 1 "''a''"] point [of 1 "''b''"] point [of "3 / 2" "''a''"] point [of "3 / 2" "''b''"]
      assms(3,4) paths
    by simp
  from calls rqs r1 r2 r3 r4 assms(4) paths folders show ?thesis
    by (intro exI [of _ r1] exI [of _ r2] exI [of _ r3] exI [of _ r4])
       (simp add: sample_request_def)
qed

lemma c16_pms:
  assumes "files w p = Some c16_hkl"
  shows "hkl_to_powdern_pms dec_float p w =
     (Inr [(''Vc'', PFloat (453 / 10)),
           (''density'', PFloat (35 / 10)),
           (''weight'', PFloat (19216 / 100)),
           (''sigma_abs'', PFloat (172 / 1000)),
           (''sigma_inc'', PFloat (16 / 1000)),
           (''reflections'', PStr (CHR 0x22 # p @ [CHR 0x22])),
           (''barns'', PInt 1)], w)"
proof -
  have "files w p = Some (concat (map fl_text c16_fields) @ ''1 1 1 8 2.0597'' @ [CHR 0x0A])"
    using assms c16_layout by simp
  from read_hkl_layout [OF this c16_names c16_ok]
  have "read_hkl dec_float p w = (Inr (map (\<lambda>s. (fl_name s, fl_val s)) c16_fields), w)" .
  then show ?thesis
    by (simp add: hkl_to_powdern_pms_def c16_fields_def getitem_def bind_err_def)
qed

lemma ab_execute: "fst (execute_cell dec_float demo_mcrun ab_globals ab_world) = Inr ()"
proof -
  have fa: "files w ''a.hkl'' = Some c16_hkl" and fb: "files w ''b.hkl'' = Some c16_hkl"
    if "files w = files ab_world" for w :: "monitor list world"
    using that by (simp_all add: ab_world_def)
  show ?thesis
    by (simp add: execute_cell_def ab_globals_def notebook_globals_def ab_world_def run_on_sample_def
        path_exists_def makedirs_def c16_pms set_parameters_def folder_path_def fmt1_1 fmt1_15
        run_full_instrument_def data_folder_name_def demo_mcrun_def setitem2_def getitem_float_def
        bind_err_def Let_def)
qed

text \<open>The scenario in a fresh world, with a simulator that succeeds.\<close>

theorem execute_two_by_two_witness:
  "run_simulation ab_globals \<and> lambda0s ab_globals = [1, 3 / 2] \<and>
   crystal_hkls ab_globals = [(''a'', ''a.hkl''), (''b'', ''b.hkl'')] \<and>
   prefix ab_globals = ''prefix'' \<and>
   fst (execute_cell dec_float demo_mcrun ab_globals ab_world) = Inr () \<and>
   map rq_foldername (sim_calls (snd (snd (execute_cell dec_float demo_mcrun ab_globals ab_world)))) =
     [''./results/prefix_1.0_a'', ''./results/prefix_1.0_b'',
      ''./results/prefix_1.5_a'', ''./results/prefix_1.5_b'']"
proof -
  have c: "run_simulation ab_globals" "lambda0s ab_globals = [1, 3 / 2]"
    "crystal_hkls ab_globals = [(''a'', ''a.hkl''), (''b'', ''b.hkl'')]"
    "prefix ab_globals = ''prefix''"
    by (simp_all add: ab_globals_def notebook_globals_def)
  have o: "output_folder ab_globals = ''./results''" and s: "sim_calls ab_world = []"
    by (simp_all add: ab_globals_def notebook_globals_def ab_world_def)
  obtain g' w' where run: "execute_cell dec_float demo_mcrun ab_globals ab_world = (Inr (), g', w')"
    using ab_execute by (cases "execute_cell dec_float demo_mcrun ab_globals ab_world") auto
  from execute_two_by_two [OF c run] c run o s show ?thesis by auto
qed

text \<open>
  C5, as the code has it.  The simulator is asked to append a number to the folder name
  when the folder exists already, and the replay cell with an empty postfix loads from the
  folder without a number.  So the property needs a condition on the world: every folder
  of a Sweep Point that exists before the sweep holds a data set.  Then, for every sweep that
  ran to its end in execute mode, the replay cell with the same configuration and an empty
  postfix runs to its end as well, changes nothing in the world, and recovers a Result
  Collection with the same keys, wavelength by wavelength and as pairs.
\<close>

theorem replay_after_execute:
  assumes "run_simulation g" and "postfix g = []"
    and "execute_cell pyfloat mcrun g w = (Inr (), g1, w1)"
    and "\<forall>p \<in> set (sweep_folders g). p \<in> set (folders w) \<longrightarrow> datasets w p \<noteq> None"
  shows "\<exists>g2. replay_cell (g\<lparr>run_simulation := False\<rparr>) w1 = (Inr (), g2, w1) \<and>
           result_keys (results g2) = result_keys (results g1) \<and>
           set (key_pairs (results g2)) = set (key_pairs (results g1))"
proof -
  let ?e = "g\<lparr>results := []\<rparr>"
  let ?r = "g\<lparr>run_simulation := False, results := []\<rparr>"
  from assms(1,3) have run: "execute_lambdas pyfloat mcrun (lambda0s g) ?e w = (Inr (), g1, w1)"
    by (simp add: execute_cell_def)
  have ready: "loadable w1 (folder_path (output_folder g) (prefix g) lambda0 crys @ postfix g)"
    if "lambda0 \<in> set (lambda0s g)" "crys \<in> fst ` set (crystal_hkls g)" for lambda0 crys
  proof -
    let ?p = "folder_path (output_folder g) (prefix g) lambda0 crys"
    have "?p \<in> set (sweep_folders g)"
      using that assms(2) by (auto simp: sweep_folders_def)
    with assms(4) have "?p \<in> set (folders w) \<longrightarrow> datasets w ?p \<noteq> None"
      by blast
    with execute_lambdas_loadable [OF run, of lambda0 crys] that show ?thesis
      by (simp add: assms(2))
  qed
  from replay_lambdas_run [of "lambda0s g" ?r w1] obtain r res where
    rep: "replay_lambdas (lambda0s g) ?r w1 = (r, ?r\<lparr>results := res\<rparr>, w1)"
    and ok: "(r = Inr ()) =
        (\<forall>lambda0 \<in> set (lambda0s g). \<forall>crys \<in> fst ` set (crystal_hkls g).
           loadable w1 (folder_path (output_folder g) (prefix g) lambda0 crys @ postfix g))"
    by auto
  from ok ready have r: "r = Inr ()" by blast
  let ?g2 = "?r\<lparr>results := res\<rparr>"
  have cell: "replay_cell (g\<lparr>run_simulation := False\<rparr>) w1 = (Inr (), ?g2, w1)"
    using rep r by (simp add: replay_cell_def)
  have "result_keys (results ?e) = result_keys (results ?r)" by simp
  moreover have "crystal_hkls ?r = crystal_hkls ?e" by simp
  ultimately have keys: "result_keys (results g1) = result_keys (results ?g2)"
    using keys_lambdas [OF _ _ run] rep r by blast
  then have "key_pairs (results ?g2) = key_pairs (results g1)"
    by (simp add: key_pairs_result_keys)
  with cell keys show ?thesis by (intro exI [of _ ?g2]) simp
qed


text \<open>In the fresh world of the scenario no folder of a Sweep Point exists before the sweep.\<close>

theorem replay_after_execute_witness:
  "run_simulation ab_globals \<and> postfix ab_globals = [] \<and>
   fst (execute_cell dec_float demo_mcrun ab_globals ab_world) = Inr () \<and>
   list_all (\<lambda>p. p \<notin> set (folders ab_world)) (sweep_folders ab_globals) \<and>
   fst (replay_cell (ab_globals\<lparr>run_simulation := False\<rparr>)
          (snd (snd (execute_cell dec_float demo_mcrun ab_globals ab_world)))) = Inr () \<and>
   result_keys (results (fst (snd (replay_cell (ab_globals\<lparr>run_simulation := False\<rparr>)
          (snd (snd (execute_cell dec_float demo_mcrun ab_globals ab_world))))))) =
   result_keys (results (fst (snd (execute_cell dec_float demo_mcrun ab_globals ab_world))))"
proof -
  have c: "run_simulation ab_globals" "postfix ab_globals = []"
    by (simp_all add: ab_globals_def notebook_globals_def)
  have fresh: "list_all (\<lambda>p. p \<notin> set (folders ab_world)) (sweep_folders ab_globals)"
    by (simp add: ab_world_def list_all_iff)
  then have h: "\<forall>p \<in> set (sweep_folders ab_globals). p \<in> set (folders ab_world) \<longrightarrow> datasets ab_world p \<noteq> None"
    by (simp add: list_all_iff)
  obtain g1 w1 where run: "execute_cell dec_float demo_mcrun ab_globals ab_world = (Inr (), g1, w1)"
    using ab_execute by (cases "execute_cell dec_float demo_mcrun ab_globals ab_world") auto
  from replay_after_execute [OF c run h] c run fresh show ?thesis by auto
qed

lemma stale_name:
  "data_folder_name ''./results/d2b_test_1.0_c16'' True
     [''./hkl'', ''./results'', ''./results/d2b_test_1.0_c16''] = Some ''./results/d2b_test_1.0_c16_0''"
  by code_simp


lemma stale_execute:
  "execute_cell dec_float demo_mcrun stale_globals stale_world =
     (Inr (), stale_globals\<lparr>results := [(1, [(''c16'', [banana])])]\<rparr>,
      stale_world\<lparr>sample_pms := [(''Vc'', PFloat (453 / 10)),
           (''density'', PFloat (35 / 10)),
           (''weight'', PFloat (19216 / 100)),
           (''sigma_abs'', PFloat (172 / 1000)),
           (''sigma_inc'', PFloat (16 / 1000)),
           (''reflections'', PStr (CHR 0x22 # ''./hkl/c16.hkl'' @ [CHR 0x22])),
           (''barns'', PInt 1)],
        sim_calls := [\<lparr>rq_foldername = ''./results/d2b_test_1.0_c16'', rq_increment_folder_name = True,
           rq_ncount = 10000000, rq_mpi = 1,
           rq_parameters = [(''lambda'', PFloat 1), (''RV'', PInt (- 1)), (''verbose'', PInt 1)],
           rq_sample = [(''Vc'', PFloat (453 / 10)),
           (''density'', PFloat (35 / 10)),
           (''weight'', PFloat (19216 / 100)),
           (''sigma_abs'', PFloat (172 / 1000)),
           (''sigma_inc'', PFloat (16 / 1000)),
           (''reflections'', PStr (CHR 0x22 # ''./hkl/c16.hkl'' @ [CHR 0x22])),
           (''barns'', PInt 1)]\<rparr>],
        folders := [''./hkl'', ''./results'', ''./results/d2b_test_1.0_c16'', ''./results/d2b_test_1.0_c16_0''],
        datasets := [''./results/d2b_test_1.0_c16_0'' \<mapsto> [banana]]\<rparr>)"
proof -
  have f: "files stale_world ''./hkl/c16.hkl'' = Some c16_hkl"
    by (simp add: stale_world_def hkl_world_def)
  have fo: "folders stale_world = [''./hkl'', ''./results'', ''./results/d2b_test_1.0_c16'']"
    and ca: "sim_calls stale_world = []" and sp: "sample_pms stale_world = []"
    and ds: "datasets stale_world = Map.empty"
    by (simp_all add: stale_world_def hkl_world_def)
  have run: "run_on_sample dec_float demo_mcrun (stale_globals\<lparr>results := [(1, [])]\<rparr>)
      ''c16'' ''./hkl/c16.hkl'' 1 10000000 1 stale_world =
     (Inr [banana], stale_world\<lparr>sample_pms := [(''Vc'', PFloat (453 / 10)),
           (''density'', PFloat (35 / 10)),
           (''weight'', PFloat (19216 / 100)),
           (''sigma_abs'', PFloat (172 / 1000)),
           (''sigma_inc'', PFloat (16 / 1000)),
           (''reflections'', PStr (CHR 0x22 # ''./hkl/c16.hkl'' @ [CHR 0x22])),
           (''barns'', PInt 1)],
        sim_calls := [\<lparr>rq_foldername = ''./results/d2b_test_1.0_c16'', rq_increment_folder_name = True,
           rq_ncount = 10000000, rq_mpi = 1,
           rq_parameters = [(''lambda'', PFloat 1), (''RV'', PInt (- 1)), (''verbose'', PInt 1)],
           rq_sample = [(''Vc'', PFloat (453 / 10)),
           (''density'', PFloat (35 / 10)),
           (''weight'', PFloat (19216 / 100)),
           (''sigma_abs'', PFloat (172 / 1000)),
           (''sigma_inc'', PFloat (16 / 1000)),
           (''reflections'', PStr (CHR 0x22 # ''./hkl/c16.hkl'' @ [CHR 0x22])),
           (''barns'', PInt 1)]\<rparr>],
        folders := [''./hkl'', ''./results'', ''./results/d2b_test_1.0_c16'', ''./results/d2b_test_1.0_c16_0''],
        datasets := [''./results/d2b_test_1.0_c16_0'' \<mapsto> [banana]]\<rparr>)"
    by (simp add: run_on_sample_def path_exists_def c16_pms [OF f] set_parameters_def fo ca sp ds
        stale_globals_def notebook_globals_def folder_path_def fmt1_1 run_full_instrument_def stale_name
        demo_mcrun_def Let_def)
  show ?thesis
    by (simp add: execute_cell_def stale_globals_def notebook_globals_def)
       (simp add: run [unfolded stale_globals_def notebook_globals_def, simplified]
          setitem2_def getitem_float_def bind_err_def)
qed

text \<open>
  The folder \<open>./results/d2b_test_1.0_c16\<close> exists and is empty.  The sweep in execute
  mode runs to its end (the simulator writes to \<open>./results/d2b_test_1.0_c16_0\<close>), and
  the replay with the same configuration and an empty postfix fails on the empty folder.
\<close>

theorem replay_after_execute_counterexample:
  "fst (execute_cell dec_float demo_mcrun stale_globals stale_world) = Inr () \<and>
   fst (replay_cell (stale_globals\<lparr>run_simulation := False\<rparr>)
          (snd (snd (execute_cell dec_float demo_mcrun stale_globals stale_world)))) =
     Inl (NameError ''No mccode.sim in data folder.'')"
  by (simp add: stale_execute)
     (simp add: replay_cell_def stale_globals_def notebook_globals_def load_data_def
        folder_path_def fmt1_1 stale_world_def hkl_world_def Let_def)




end
